theory Spec2Isabelle
  imports Main "HOL-Library.Word"
begin

unbundle bit_operations_syntax

section \<open>Strings\<close>

text \<open>
  Source strings are modelled as \<^typ>\<open>string\<close>. The strings the program compares, measures
  and prints (addresses, hex digests, transaction ids, error messages) are ASCII, one
  \<^typ>\<open>char\<close> per character; a string that is only ever encoded as UTF-8 (a password, the
  text of a private key) is the list of its bytes.
\<close>

subsection \<open>Tron address format (tronWalletGenerator)\<close>

text \<open>
  The character class of the regular expression in \<open>validateTronAddress\<close>:
  \<^verbatim>\<open>/^[123456789ABCDEFGHJKLMNPQRSTUVWXYZabcdefghijkmnopqrstuvwxyz]+$/\<close>
\<close>

definition base58Chars :: "string" where
  "base58Chars = ''123456789ABCDEFGHJKLMNPQRSTUVWXYZabcdefghijkmnopqrstuvwxyz''"

text \<open>
  \<open>base58Chars.test(address)\<close>: the pattern is anchored at both ends and has no flags, so it
  accepts exactly the non-empty strings all of whose characters are in the class.
\<close>

definition base58Chars_test :: "string \<Rightarrow> bool" where
  "base58Chars_test address \<longleftrightarrow> address \<noteq> [] \<and> list_all (\<lambda>c. c \<in> set base58Chars) address"

text \<open>
  \<^verbatim>\<open>
  static validateTronAddress(address: string): boolean {
    if (!address || !address.startsWith('T') || address.length !== 34) { return false; }
    const base58Chars = /^[...]+$/;
    return base58Chars.test(address);
  }
  \<close>
  \<open>!address\<close> holds for the empty string.
\<close>

definition startsWith :: "string \<Rightarrow> string \<Rightarrow> bool" where
  "startsWith s p \<longleftrightarrow> take (length p) s = p"

definition validateTronAddress :: "string \<Rightarrow> bool" where
  "validateTronAddress address =
     (if address = [] \<or> \<not> startsWith address ''T'' \<or> length address \<noteq> 34 then False
      else base58Chars_test address)"

subsection \<open>Numbers and letter case\<close>

text \<open>
  Identifiers and chain ids are integral \<open>number\<close>s; a template literal \<open>${n}\<close> prints one
  in decimal, with a leading minus sign when negative.
\<close>

definition digit_char :: "nat \<Rightarrow> char" where
  "digit_char d = ''0123456789'' ! d"

fun string_of_nat :: "nat \<Rightarrow> string" where
  "string_of_nat n =
     (if n < 10 then [digit_char n] else string_of_nat (n div 10) @ [digit_char (n mod 10)])"

declare string_of_nat.simps [simp del]

definition number_toString :: "int \<Rightarrow> string" where
  "number_toString i =
     (if i < 0 then CHR ''-'' # string_of_nat (nat (- i)) else string_of_nat (nat i))"

text \<open>
  \<open>String.prototype.toLowerCase\<close> follows the Unicode case mapping. On ASCII text, which is
  what addresses (hex, Base58) and the hashes of the mock gateway are, the letters
  \<open>A\<close>..\<open>Z\<close> become \<open>a\<close>..\<open>z\<close> and every other character stays. \<open>toLowerCase\<close> below is
  this restriction: it is the method of the source on strings that satisfy \<open>ascii_text\<close>,
  and on no others (the method also maps letters outside ASCII, some of them to ASCII
  letters). What is proved through it is stated for ASCII strings.
\<close>

definition is_ascii :: "char \<Rightarrow> bool" where
  "is_ascii c \<longleftrightarrow> (of_char c :: nat) < 128"

definition ascii_text :: "string \<Rightarrow> bool" where
  "ascii_text s \<longleftrightarrow> list_all is_ascii s"

definition is_upper :: "char \<Rightarrow> bool" where
  "is_upper c \<longleftrightarrow> 65 \<le> (of_char c :: nat) \<and> (of_char c :: nat) \<le> 90"

definition is_lower :: "char \<Rightarrow> bool" where
  "is_lower c \<longleftrightarrow> 97 \<le> (of_char c :: nat) \<and> (of_char c :: nat) \<le> 122"

definition lower_char :: "char \<Rightarrow> char" where
  "lower_char c = (if is_upper c then char_of ((of_char c :: nat) + 32) else c)"

definition toLowerCase :: "string \<Rightarrow> string" where
  "toLowerCase s = map lower_char s"

text \<open>
  Two strings differ only in ASCII letter case: they have the same length and at every
  position the characters are equal, or one is an upper-case ASCII letter and the other the
  lower-case letter 32 code points above it.
\<close>

definition same_letter :: "char \<Rightarrow> char \<Rightarrow> bool" where
  "same_letter x y \<longleftrightarrow>
     x = y
     \<or> (is_upper x \<and> (of_char y :: nat) = (of_char x :: nat) + 32)
     \<or> (is_upper y \<and> (of_char x :: nat) = (of_char y :: nat) + 32)"

definition differs_only_in_case :: "string \<Rightarrow> string \<Rightarrow> bool" where
  "differs_only_in_case a b \<longleftrightarrow> list_all2 same_letter a b"

section \<open>Data model (types/db.ts)\<close>

datatype walletType = ethereum | bitcoin | solana | tron

datatype transactionType = send | receive | swap

datatype status = pending | completed | failed

text \<open>
  The records leave out the fields of type \<open>Date\<close> (\<open>createdAt\<close>, \<open>updatedAt\<close>,
  \<open>timestamp\<close>): they hold the wall-clock time of the call that wrote them, and no operation
  reads them. Optional fields are options. Field names carry the record's initial, since
  the two records share names.
\<close>

record WalletRecord =
  w_id :: int
  w_userId :: string
  w_walletType :: walletType
  w_address :: string
  w_encryptedPrivateKey :: string
  w_salt :: string
  w_iv :: string
  w_network :: "string option"
  w_chainId :: "int option"

record TransactionRecord =
  t_id :: int
  t_walletId :: int
  t_transactionType :: transactionType
  t_fromAddress :: string
  t_toAddress :: string
  t_amount :: string
  t_currency :: string
  t_fee :: string
  t_status :: status
  t_hash :: string
  t_chainId :: "int option"
  t_fromChainId :: "int option"
  t_toChainId :: "int option"

record CreateWalletData =
  c_walletType :: walletType
  c_address :: string
  c_encryptedPrivateKey :: string
  c_salt :: string
  c_iv :: string
  c_network :: "string option"
  c_chainId :: "int option"

text \<open>\<open>Omit<TransactionRecord, 'id' | 'timestamp'>\<close>, the argument of \<open>recordTransaction\<close>.\<close>

record TransactionData =
  d_walletId :: int
  d_transactionType :: transactionType
  d_fromAddress :: string
  d_toAddress :: string
  d_amount :: string
  d_currency :: string
  d_fee :: string
  d_status :: status
  d_hash :: string
  d_chainId :: "int option"
  d_fromChainId :: "int option"
  d_toChainId :: "int option"

text \<open>
  \<open>Partial<TransactionRecord>\<close>, the argument of \<open>updateTransaction\<close>, with the keys the
  services of this repository pass: \<open>status\<close>, \<open>hash\<close> and \<open>fee\<close>. \<open>None\<close> is an absent key.
\<close>

record TransactionPatch =
  p_status :: "status option"
  p_hash :: "string option"
  p_fee :: "string option"

text \<open>
  \<open>Partial<WalletRecord>\<close>, the argument of \<open>updateWallet\<close>, with the keys that may change
  after creation: the address, the encrypted secret with its salt and vector, the network and
  the chain id.
\<close>

record WalletPatch =
  q_address :: "string option"
  q_encryptedPrivateKey :: "string option"
  q_salt :: "string option"
  q_iv :: "string option"
  q_network :: "string option"
  q_chainId :: "int option"

definition CHAIN_IDS_ETHEREUM_MAINNET :: int where
  "CHAIN_IDS_ETHEREUM_MAINNET = 1"

definition CHAIN_IDS_POLYGON_MAINNET :: int where
  "CHAIN_IDS_POLYGON_MAINNET = 137"

text \<open>
  A thrown error with its message: an \<open>Error\<close>, the class of every error the sources raise
  themselves, or the \<open>TypeError\<close> that the runtime raises when a call goes to a property that
  is not a function.
\<close>

datatype error = Error (message: string) | TypeError (message: string)

section \<open>The in-memory store (db/MockDatabase.ts)\<close>

record MockDatabase =
  wallets :: "WalletRecord list"
  transactions :: "TransactionRecord list"
  walletIdCounter :: int
  transactionIdCounter :: int
  connected :: bool

text \<open>The field initialisers of the class.\<close>

definition new_MockDatabase :: MockDatabase where
  "new_MockDatabase =
     \<lparr>wallets = [], transactions = [], walletIdCounter = 1, transactionIdCounter = 1,
      connected = False\<rparr>"

text \<open>\<open>connect\<close> and \<open>disconnect\<close>; \<open>seedTestData\<close> only logs.\<close>

definition connect :: "MockDatabase \<Rightarrow> MockDatabase" where
  "connect db = (if connected db then db else db\<lparr>connected := True\<rparr>)"

definition disconnect :: "MockDatabase \<Rightarrow> MockDatabase" where
  "disconnect db = (if \<not> connected db then db else db\<lparr>connected := False\<rparr>)"

definition ensureConnected :: "MockDatabase \<Rightarrow> error + unit" where
  "ensureConnected db =
     (if \<not> connected db then Inl (Error ''Database not connected. Call connect() first.'')
      else Inr ())"

text \<open>\<open>Array.prototype.find\<close> and \<open>findIndex\<close>: the first element that passes, or none.\<close>

fun findIndex :: "('a \<Rightarrow> bool) \<Rightarrow> 'a list \<Rightarrow> nat option" where
  "findIndex P [] = None"
| "findIndex P (x # xs) =
     (if P x then Some 0 else (case findIndex P xs of None \<Rightarrow> None | Some i \<Rightarrow> Some (Suc i)))"

text \<open>
  Every store operation checks the connection first and throws before it touches anything;
  an operation that succeeds returns its value and the store after it. Reads return the
  value alone.
\<close>

definition createWallet ::
  "string \<Rightarrow> CreateWalletData \<Rightarrow> MockDatabase \<Rightarrow> error + (WalletRecord \<times> MockDatabase)" where
  "createWallet userId walletData db =
     (case ensureConnected db of
        Inl e \<Rightarrow> Inl e
      | Inr _ \<Rightarrow>
          let wallet =
            \<lparr>w_id = walletIdCounter db,
             w_userId = userId,
             w_walletType = c_walletType walletData,
             w_address = c_address walletData,
             w_encryptedPrivateKey = c_encryptedPrivateKey walletData,
             w_salt = c_salt walletData,
             w_iv = c_iv walletData,
             w_network = c_network walletData,
             w_chainId = c_chainId walletData\<rparr>
          in Inr (wallet,
                  db\<lparr>walletIdCounter := walletIdCounter db + 1,
                     wallets := wallets db @ [wallet]\<rparr>))"

definition getWallet :: "string \<Rightarrow> string \<Rightarrow> MockDatabase \<Rightarrow> error + WalletRecord option" where
  "getWallet userId address db =
     (case ensureConnected db of
        Inl e \<Rightarrow> Inl e
      | Inr _ \<Rightarrow>
          Inr (find (\<lambda>w. w_userId w = userId
                        \<and> toLowerCase (w_address w) = toLowerCase address) (wallets db)))"

definition getWalletById :: "int \<Rightarrow> MockDatabase \<Rightarrow> error + WalletRecord option" where
  "getWalletById walletId db =
     (case ensureConnected db of
        Inl e \<Rightarrow> Inl e
      | Inr _ \<Rightarrow> Inr (find (\<lambda>w. w_id w = walletId) (wallets db)))"

definition getWalletsByUser :: "string \<Rightarrow> MockDatabase \<Rightarrow> error + WalletRecord list" where
  "getWalletsByUser userId db =
     (case ensureConnected db of
        Inl e \<Rightarrow> Inl e
      | Inr _ \<Rightarrow> Inr (filter (\<lambda>w. w_userId w = userId) (wallets db)))"

definition getWalletsByChainId ::
  "string \<Rightarrow> int \<Rightarrow> MockDatabase \<Rightarrow> error + WalletRecord list" where
  "getWalletsByChainId userId chainId db =
     (case ensureConnected db of
        Inl e \<Rightarrow> Inl e
      | Inr _ \<Rightarrow>
          Inr (filter (\<lambda>w. w_userId w = userId \<and> w_chainId w = Some chainId) (wallets db)))"

text \<open>The object spread \<open>{...this.wallets[index], ...data}\<close>: keys of \<open>data\<close> win.\<close>

definition spread_wallet :: "WalletRecord \<Rightarrow> WalletPatch \<Rightarrow> WalletRecord" where
  "spread_wallet w data =
     w\<lparr>w_address := (case q_address data of None \<Rightarrow> w_address w | Some v \<Rightarrow> v),
       w_encryptedPrivateKey :=
         (case q_encryptedPrivateKey data of None \<Rightarrow> w_encryptedPrivateKey w | Some v \<Rightarrow> v),
       w_salt := (case q_salt data of None \<Rightarrow> w_salt w | Some v \<Rightarrow> v),
       w_iv := (case q_iv data of None \<Rightarrow> w_iv w | Some v \<Rightarrow> v),
       w_network := (case q_network data of None \<Rightarrow> w_network w | Some v \<Rightarrow> Some v),
       w_chainId := (case q_chainId data of None \<Rightarrow> w_chainId w | Some v \<Rightarrow> Some v)\<rparr>"

definition updateWallet ::
  "int \<Rightarrow> WalletPatch \<Rightarrow> MockDatabase \<Rightarrow> error + (bool \<times> MockDatabase)" where
  "updateWallet walletId data db =
     (case ensureConnected db of
        Inl e \<Rightarrow> Inl e
      | Inr _ \<Rightarrow>
          (case findIndex (\<lambda>w. w_id w = walletId) (wallets db) of
             None \<Rightarrow> Inr (False, db)
           | Some index \<Rightarrow>
               Inr (True,
                    db\<lparr>wallets := (wallets db)[index := spread_wallet (wallets db ! index) data]\<rparr>)))"

text \<open>
  \<^verbatim>\<open>
  async deleteWallet(walletId: number): Promise<boolean> {
    this.ensureConnected();
    const initialLength = this.wallets.length;
    this.wallets = this.wallets.filter(w => w.id !== walletId);
    return this.wallets.length !== initialLength;
  }
  \<close>
\<close>

definition deleteWallet :: "int \<Rightarrow> MockDatabase \<Rightarrow> error + (bool \<times> MockDatabase)" where
  "deleteWallet walletId db =
     (case ensureConnected db of
        Inl e \<Rightarrow> Inl e
      | Inr _ \<Rightarrow>
          let initialLength = length (wallets db);
              db' = db\<lparr>wallets := filter (\<lambda>w. w_id w \<noteq> walletId) (wallets db)\<rparr>
          in Inr (length (wallets db') \<noteq> initialLength, db'))"

definition recordTransaction ::
  "TransactionData \<Rightarrow> MockDatabase \<Rightarrow> error + (TransactionRecord \<times> MockDatabase)" where
  "recordTransaction transactionData db =
     (case ensureConnected db of
        Inl e \<Rightarrow> Inl e
      | Inr _ \<Rightarrow>
          let transaction =
            \<lparr>t_id = transactionIdCounter db,
             t_walletId = d_walletId transactionData,
             t_transactionType = d_transactionType transactionData,
             t_fromAddress = d_fromAddress transactionData,
             t_toAddress = d_toAddress transactionData,
             t_amount = d_amount transactionData,
             t_currency = d_currency transactionData,
             t_fee = d_fee transactionData,
             t_status = d_status transactionData,
             t_hash = d_hash transactionData,
             t_chainId = d_chainId transactionData,
             t_fromChainId = d_fromChainId transactionData,
             t_toChainId = d_toChainId transactionData\<rparr>
          in Inr (transaction,
                  db\<lparr>transactionIdCounter := transactionIdCounter db + 1,
                     transactions := transactions db @ [transaction]\<rparr>))"

definition getTransactionsByWallet ::
  "int \<Rightarrow> MockDatabase \<Rightarrow> error + TransactionRecord list" where
  "getTransactionsByWallet walletId db =
     (case ensureConnected db of
        Inl e \<Rightarrow> Inl e
      | Inr _ \<Rightarrow> Inr (filter (\<lambda>t. t_walletId t = walletId) (transactions db)))"

definition getTransactionsByUser ::
  "string \<Rightarrow> MockDatabase \<Rightarrow> error + TransactionRecord list" where
  "getTransactionsByUser userId db =
     (case ensureConnected db of
        Inl e \<Rightarrow> Inl e
      | Inr _ \<Rightarrow>
          let userWalletIds = map w_id (filter (\<lambda>w. w_userId w = userId) (wallets db))
          in Inr (filter (\<lambda>t. t_walletId t \<in> set userWalletIds) (transactions db)))"

definition getTransactionsByHash ::
  "string \<Rightarrow> MockDatabase \<Rightarrow> error + TransactionRecord option" where
  "getTransactionsByHash hash db =
     (case ensureConnected db of
        Inl e \<Rightarrow> Inl e
      | Inr _ \<Rightarrow>
          Inr (find (\<lambda>t. toLowerCase (t_hash t) = toLowerCase hash) (transactions db)))"

text \<open>The object spread \<open>{...this.transactions[index], ...data}\<close>: keys of \<open>data\<close> win.\<close>

definition spread :: "TransactionRecord \<Rightarrow> TransactionPatch \<Rightarrow> TransactionRecord" where
  "spread t data =
     t\<lparr>t_status := (case p_status data of None \<Rightarrow> t_status t | Some v \<Rightarrow> v),
       t_hash := (case p_hash data of None \<Rightarrow> t_hash t | Some v \<Rightarrow> v),
       t_fee := (case p_fee data of None \<Rightarrow> t_fee t | Some v \<Rightarrow> v)\<rparr>"

definition updateTransaction ::
  "int \<Rightarrow> TransactionPatch \<Rightarrow> MockDatabase \<Rightarrow> error + (bool \<times> MockDatabase)" where
  "updateTransaction ident data db =
     (case ensureConnected db of
        Inl e \<Rightarrow> Inl e
      | Inr _ \<Rightarrow>
          (case findIndex (\<lambda>t. t_id t = ident) (transactions db) of
             None \<Rightarrow> Inr (False, db)
           | Some index \<Rightarrow>
               Inr (True,
                    db\<lparr>transactions :=
                         (transactions db)[index := spread (transactions db ! index) data]\<rparr>)))"

text \<open>
  \<open>getTransactionsByStatus\<close>. The interface \<open>IWalletDatabase\<close> declares
  \<^verbatim>\<open>getTransactionsByStatus(status: TransactionRecord['status']): Promise<TransactionRecord[]>\<close>
  and \<open>SwapService.updatePendingSwaps\<close> calls \<open>this.db.getTransactionsByStatus('pending')\<close>, but
  the class \<open>MockDatabase\<close> has no member of that name (nor has \<open>MySQLDatabase\<close>, the only other
  class that \<open>DatabaseFactory.createDatabase\<close> returns). On an object of either class the
  property is \<open>undefined\<close>, and the call throws a \<open>TypeError\<close> before anything is read.
\<close>

definition getTransactionsByStatus ::
  "status \<Rightarrow> MockDatabase \<Rightarrow> error + TransactionRecord list" where
  "getTransactionsByStatus st db =
     Inl (TypeError ''this.db.getTransactionsByStatus is not a function'')"

text \<open>
  An invariant of the class: identifiers come from the counters, so the stored records have
  distinct identifiers below the counter.
\<close>

definition ids_issued :: "MockDatabase \<Rightarrow> bool" where
  "ids_issued db \<longleftrightarrow>
     distinct (map t_id (transactions db))
     \<and> list_all (\<lambda>t. t_id t < transactionIdCounter db) (transactions db)
     \<and> distinct (map w_id (wallets db))
     \<and> list_all (\<lambda>w. w_id w < walletIdCounter db) (wallets db)"

section \<open>The relational store (db/MySQLDatabase.ts)\<close>

text \<open>
  The two tables as lists of rows, and the two statements of \<open>deleteWallet\<close>:
  \<^verbatim>\<open>
  await this.connection!.execute('DELETE FROM transactions WHERE wallet_id = ?', [walletId]);
  const [result] = await this.connection!.execute('DELETE FROM wallets WHERE id = ?', [walletId]);
  return (result as mysql.ResultSetHeader).affectedRows > 0;
  \<close>
  \<open>is_open\<close> stands for \<open>this.connection\<close> being set. The order of the rows a query returns
  (\<open>ORDER BY timestamp DESC\<close>) is not modelled.
\<close>

record MySQLDatabase =
  wallets_table :: "WalletRecord list"
  transactions_table :: "TransactionRecord list"
  is_open :: bool

definition MySQL_deleteWallet :: "int \<Rightarrow> MySQLDatabase \<Rightarrow> error + (bool \<times> MySQLDatabase)" where
  "MySQL_deleteWallet walletId db =
     (if \<not> is_open db then Inl (Error ''Database not connected. Call connect() first.'')
      else
        let db1 = db\<lparr>transactions_table :=
                       filter (\<lambda>t. t_walletId t \<noteq> walletId) (transactions_table db)\<rparr>;
            affectedRows = length (filter (\<lambda>w. w_id w = walletId) (wallets_table db1));
            db2 = db1\<lparr>wallets_table := filter (\<lambda>w. w_id w \<noteq> walletId) (wallets_table db1)\<rparr>
        in Inr (affectedRows > 0, db2))"

definition MySQL_getTransactionsByWallet ::
  "int \<Rightarrow> MySQLDatabase \<Rightarrow> error + TransactionRecord list" where
  "MySQL_getTransactionsByWallet walletId db =
     (if \<not> is_open db then Inl (Error ''Database not connected. Call connect() first.'')
      else Inr (filter (\<lambda>t. t_walletId t = walletId) (transactions_table db)))"

section \<open>Password-based encryption of the private key\<close>

subsection \<open>Buffers, \<open>utf8\<close> and \<open>hex\<close>\<close>

type_synonym byte = "8 word"

type_synonym Buffer = "byte list"

text \<open>
  The \<open>'utf8'\<close> encoding of a string argument and of a string result. A \<^typ>\<open>char\<close> is one
  byte of the encoded text, so both directions are byte for byte. (Where the library meets
  bytes that are not valid UTF-8 it returns a string all the same, with replacement
  characters; the model keeps such bytes as they are.)
\<close>

definition utf8_bytes :: "string \<Rightarrow> Buffer" where
  "utf8_bytes s = map (\<lambda>c. of_nat (of_char c)) s"

definition utf8_string :: "Buffer \<Rightarrow> string" where
  "utf8_string bs = map (\<lambda>b. char_of (unat b)) bs"

text \<open>\<open>buf.toString('hex')\<close>: two lower-case digits per byte.\<close>

definition hex_digit :: "nat \<Rightarrow> char" where
  "hex_digit n = ''0123456789abcdef'' ! n"

definition byte_toHex :: "byte \<Rightarrow> string" where
  "byte_toHex b = [hex_digit (unat b div 16), hex_digit (unat b mod 16)]"

definition toString_hex :: "Buffer \<Rightarrow> string" where
  "toString_hex bs = concat (map byte_toHex bs)"

text \<open>
  \<open>Buffer.from(s, 'hex')\<close> and the \<open>'hex'\<close> input encoding: pairs of digits of either case,
  read up to the first pair that is not two hex digits; a trailing single digit is dropped.
\<close>

definition hex_value :: "char \<Rightarrow> nat option" where
  "hex_value c =
     (let n = (of_char c :: nat) in
      if 48 \<le> n \<and> n \<le> 57 then Some (n - 48)
      else if 97 \<le> n \<and> n \<le> 102 then Some (n - 87)
      else if 65 \<le> n \<and> n \<le> 70 then Some (n - 55)
      else None)"

fun Buffer_from_hex :: "string \<Rightarrow> Buffer" where
  "Buffer_from_hex (a # b # rest) =
     (case hex_value a of
        None \<Rightarrow> []
      | Some h \<Rightarrow>
          (case hex_value b of
             None \<Rightarrow> []
           | Some l \<Rightarrow> of_nat (16 * h + l) # Buffer_from_hex rest))"
| "Buffer_from_hex _ = []"

subsection \<open>The primitives of the \<open>crypto\<close> module\<close>

text \<open>
  The hash function and the block cipher are parameters: \<open>sha256\<close> is SHA-256 on byte
  strings, \<open>aes256_encrypt\<close> and \<open>aes256_decrypt\<close> are the AES-256 block operations, taking
  the 32-byte key and one 16-byte block.
\<close>

record crypto =
  sha256 :: "Buffer \<Rightarrow> Buffer"
  aes256_encrypt :: "Buffer \<Rightarrow> Buffer \<Rightarrow> Buffer"
  aes256_decrypt :: "Buffer \<Rightarrow> Buffer \<Rightarrow> Buffer"

text \<open>
  What the development assumes of them: digests have 32 bytes, and under every 32-byte key
  the two block operations are inverse permutations of the 16-byte blocks.
\<close>

definition crypto_ok :: "crypto \<Rightarrow> bool" where
  "crypto_ok c \<longleftrightarrow>
     (\<forall>m. length (sha256 c m) = 32)
     \<and> (\<forall>k b. length k = 32 \<and> length b = 16 \<longrightarrow>
           length (aes256_encrypt c k b) = 16 \<and> length (aes256_decrypt c k b) = 16
           \<and> aes256_decrypt c k (aes256_encrypt c k b) = b
           \<and> aes256_encrypt c k (aes256_decrypt c k b) = b)"

definition xor_bytes :: "Buffer \<Rightarrow> Buffer \<Rightarrow> Buffer" where
  "xor_bytes a b = map2 (\<lambda>x y. x XOR y) a b"

subsection \<open>\<open>crypto.pbkdf2Sync(password, salt, iterations, keylen, 'sha256')\<close>\<close>

text \<open>
  HMAC over SHA-256 (block size 64): a key longer than a block is hashed first, and the key
  is then filled with zero bytes up to the block size.
\<close>

definition hmac_key_block :: "crypto \<Rightarrow> Buffer \<Rightarrow> Buffer" where
  "hmac_key_block c key =
     (let k0 = (if length key > 64 then sha256 c key else key)
      in k0 @ replicate (64 - length k0) 0)"

definition hmac_sha256 :: "crypto \<Rightarrow> Buffer \<Rightarrow> Buffer \<Rightarrow> Buffer" where
  "hmac_sha256 c key text =
     (let kb = hmac_key_block c key
      in sha256 c (map (\<lambda>b. b XOR 0x5c) kb @ sha256 c (map (\<lambda>b. b XOR 0x36) kb @ text)))"

text \<open>
  PBKDF2: block \<open>i\<close> of the derived key is \<open>U\<^sub>1 XOR ... XOR U\<^sub>c\<close> with
  \<open>U\<^sub>1 = PRF (salt || INT i)\<close> and \<open>U\<^sub>j\<^sub>+\<^sub>1 = PRF U\<^sub>j\<close>; the blocks are concatenated and cut to
  \<open>keylen\<close> bytes. String arguments enter as their \<open>utf8\<close> bytes.
\<close>

definition be32 :: "nat \<Rightarrow> Buffer" where
  "be32 i = [of_nat (i div 16777216), of_nat (i div 65536), of_nat (i div 256), of_nat i]"

fun pbkdf2_iter :: "(Buffer \<Rightarrow> Buffer) \<Rightarrow> nat \<Rightarrow> Buffer \<Rightarrow> Buffer \<Rightarrow> Buffer" where
  "pbkdf2_iter prf 0 u t = t"
| "pbkdf2_iter prf (Suc n) u t = pbkdf2_iter prf n (prf u) (xor_bytes t (prf u))"

definition pbkdf2_F :: "(Buffer \<Rightarrow> Buffer) \<Rightarrow> Buffer \<Rightarrow> nat \<Rightarrow> nat \<Rightarrow> Buffer" where
  "pbkdf2_F prf salt iterations i =
     (let u1 = prf (salt @ be32 i) in pbkdf2_iter prf (iterations - 1) u1 u1)"

definition pbkdf2Sync :: "crypto \<Rightarrow> string \<Rightarrow> string \<Rightarrow> nat \<Rightarrow> nat \<Rightarrow> Buffer" where
  "pbkdf2Sync c password salt iterations keylen =
     take keylen
       (concat (map (pbkdf2_F (hmac_sha256 c (utf8_bytes password)) (utf8_bytes salt) iterations)
                    [1 ..< Suc ((keylen + 31) div 32)]))"

subsection \<open>\<open>createCipheriv('aes-256-cbc', key, iv)\<close> and \<open>createDecipheriv\<close>\<close>

text \<open>PKCS#7 padding, added by \<open>cipher.final\<close> and checked and removed by \<open>decipher.final\<close>.\<close>

definition pkcs7_pad :: "Buffer \<Rightarrow> Buffer" where
  "pkcs7_pad bs = (let n = 16 - length bs mod 16 in bs @ replicate n (of_nat n))"

definition pkcs7_unpad :: "Buffer \<Rightarrow> Buffer option" where
  "pkcs7_unpad bs =
     (if bs = [] then None
      else
        let n = unat (last bs) in
        if n = 0 \<or> n > 16 \<or> n > length bs then None
        else if drop (length bs - n) bs \<noteq> replicate n (last bs) then None
        else Some (take (length bs - n) bs))"

fun chunks :: "Buffer \<Rightarrow> Buffer list" where
  "chunks bs = (if bs = [] then [] else take 16 bs # chunks (drop 16 bs))"

declare chunks.simps [simp del]

fun cbc_encrypt :: "(Buffer \<Rightarrow> Buffer) \<Rightarrow> Buffer \<Rightarrow> Buffer list \<Rightarrow> Buffer list" where
  "cbc_encrypt E prev [] = []"
| "cbc_encrypt E prev (p # ps) = E (xor_bytes p prev) # cbc_encrypt E (E (xor_bytes p prev)) ps"

fun cbc_decrypt :: "(Buffer \<Rightarrow> Buffer) \<Rightarrow> Buffer \<Rightarrow> Buffer list \<Rightarrow> Buffer list" where
  "cbc_decrypt D prev [] = []"
| "cbc_decrypt D prev (x # xs) = xor_bytes (D x) prev # cbc_decrypt D x xs"

text \<open>
  \<open>cipher.update(data) + cipher.final()\<close> as one function of the data, and likewise for the
  decipher. The constructors reject a key that is not 32 bytes and an initialisation vector
  that is not 16 bytes; \<open>decipher.final\<close> rejects input that is not a positive number of
  whole blocks, and a last block that does not end in valid padding. The library's message
  texts are abbreviated.
\<close>

definition cipher_aes_256_cbc :: "crypto \<Rightarrow> Buffer \<Rightarrow> Buffer \<Rightarrow> Buffer \<Rightarrow> error + Buffer" where
  "cipher_aes_256_cbc c key iv data =
     (if length key \<noteq> 32 then Inl (Error ''Invalid key length'')
      else if length iv \<noteq> 16 then Inl (Error ''Invalid initialization vector'')
      else Inr (concat (cbc_encrypt (aes256_encrypt c key) iv (chunks (pkcs7_pad data)))))"

definition decipher_aes_256_cbc :: "crypto \<Rightarrow> Buffer \<Rightarrow> Buffer \<Rightarrow> Buffer \<Rightarrow> error + Buffer" where
  "decipher_aes_256_cbc c key iv data =
     (if length key \<noteq> 32 then Inl (Error ''Invalid key length'')
      else if length iv \<noteq> 16 then Inl (Error ''Invalid initialization vector'')
      else if data = [] \<or> length data mod 16 \<noteq> 0 then Inl (Error ''wrong final block length'')
      else
        (case pkcs7_unpad (concat (cbc_decrypt (aes256_decrypt c key) iv (chunks data))) of
           None \<Rightarrow> Inl (Error ''bad decrypt'')
         | Some plain \<Rightarrow> Inr plain))"

subsection \<open>The wallet generators\<close>

text \<open>
  What one call of a generator draws from outside: the account made by the chain library
  (\<open>ethers.Wallet.createRandom()\<close>, \<open>ECPair.makeRandom\<close>, \<open>Keypair.generate()\<close>,
  \<open>TronWeb.utils.accounts.generateAccount()\<close>) as its address and its private key in the
  text form the generator encrypts, and the two results of \<open>crypto.randomBytes(16)\<close>.
\<close>

record drawn =
  account_address :: string
  account_privateKey :: string
  salt_bytes :: Buffer
  iv_bytes :: Buffer

record EncryptedWallet =
  address :: string
  encryptedPrivateKey :: string
  salt :: string
  iv :: string

record EncryptedBitcoinWallet = EncryptedWallet +
  network :: string

text \<open>
  The body shared by the four generators, from the salt to the returned object:
  \<^verbatim>\<open>
  const salt = crypto.randomBytes(16).toString('hex');
  const iv = crypto.randomBytes(16);
  const key = crypto.pbkdf2Sync(password, salt, 100000, 32, 'sha256');
  const cipher = crypto.createCipheriv('aes-256-cbc', key, iv);
  let encryptedPrivateKey = cipher.update(privateKey, 'utf8', 'hex');
  encryptedPrivateKey += cipher.final('hex');
  return { address, encryptedPrivateKey, salt, iv: iv.toString('hex') };
  \<close>
\<close>

definition encryptAccount :: "crypto \<Rightarrow> drawn \<Rightarrow> string \<Rightarrow> error + EncryptedWallet" where
  "encryptAccount c r password =
     (let salt = toString_hex (salt_bytes r);
          iv = iv_bytes r;
          key = pbkdf2Sync c password salt 100000 32
      in case cipher_aes_256_cbc c key iv (utf8_bytes (account_privateKey r)) of
           Inl e \<Rightarrow> Inl e
         | Inr encrypted \<Rightarrow>
             Inr \<lparr>address = account_address r,
                  encryptedPrivateKey = toString_hex encrypted,
                  salt = salt,
                  iv = toString_hex iv\<rparr>)"

text \<open>\<open>EthereumWalletGenerator.generateEncryptedWallet\<close> (walletGenerator.ts).\<close>

definition generateEncryptedWallet :: "crypto \<Rightarrow> drawn \<Rightarrow> string \<Rightarrow> error + EncryptedWallet" where
  "generateEncryptedWallet c r password = encryptAccount c r password"

text \<open>
  The steps of \<open>decryptWallet\<close> up to the decrypted key text, shared by the four generators:
  \<^verbatim>\<open>
  const key = crypto.pbkdf2Sync(password, encryptedWallet.salt, 100000, 32, 'sha256');
  const iv = Buffer.from(encryptedWallet.iv, 'hex');
  const decipher = crypto.createDecipheriv('aes-256-cbc', key, iv);
  let decryptedPrivateKey = decipher.update(encryptedWallet.encryptedPrivateKey, 'hex', 'utf8');
  decryptedPrivateKey += decipher.final('utf8');
  \<close>
\<close>

definition decryptPrivateKey ::
  "crypto \<Rightarrow> ('a EncryptedWallet_scheme) \<Rightarrow> string \<Rightarrow> error + string" where
  "decryptPrivateKey c encryptedWallet password =
     (let key = pbkdf2Sync c password (salt encryptedWallet) 100000 32;
          iv = Buffer_from_hex (iv encryptedWallet)
      in case decipher_aes_256_cbc c key iv (Buffer_from_hex (encryptedPrivateKey encryptedWallet)) of
           Inl e \<Rightarrow> Inl e
         | Inr plain \<Rightarrow> Inr (utf8_string plain))"

text \<open>
  \<open>EthereumWalletGenerator.decryptWallet\<close>: the steps above, then
  \<open>return new ethers.Wallet(decryptedPrivateKey)\<close>. The constructor belongs to the \<open>ethers\<close>
  library and is not modelled. \<open>Inl e\<close> is an error thrown by the steps above, which is then
  the error of the method. \<open>Inr k\<close> says that these steps returned the text \<open>k\<close> and that the
  method went on to construct the wallet from it: for the key that the generator encrypted,
  which is the \<open>privateKey\<close> of a wallet that the library made, the constructor returns the
  wallet of this key; on a text that is not a private key it throws, and what the method
  does then is not described by this function. The theorems below state \<open>Inr\<close> of the generated
  key only.
\<close>

definition decryptWallet :: "crypto \<Rightarrow> EncryptedWallet \<Rightarrow> string \<Rightarrow> error + string" where
  "decryptWallet c encryptedWallet password = decryptPrivateKey c encryptedWallet password"

text \<open>\<open>BitcoinWalletGenerator.generateEncryptedWallet(password, network = 'mainnet')\<close>.\<close>

definition Bitcoin_generateEncryptedWallet ::
  "crypto \<Rightarrow> drawn \<Rightarrow> string \<Rightarrow> string \<Rightarrow> error + EncryptedBitcoinWallet" where
  "Bitcoin_generateEncryptedWallet c r password net =
     (case encryptAccount c r password of
        Inl e \<Rightarrow> Inl e
      | Inr w \<Rightarrow> Inr (EncryptedWallet.extend w \<lparr>network = net\<rparr>))"

text \<open>\<open>SolanaWalletGenerator.generateEncryptedWallet\<close>.\<close>

definition Solana_generateEncryptedWallet ::
  "crypto \<Rightarrow> drawn \<Rightarrow> string \<Rightarrow> error + EncryptedWallet" where
  "Solana_generateEncryptedWallet c r password = encryptAccount c r password"

text \<open>
  \<open>TronWalletGenerator.generateEncryptedWallet\<close> checks the format of the generated address
  first, and \<open>TronWalletGenerator.decryptWallet\<close> that of the stored one.
\<close>

definition Tron_generateEncryptedWallet ::
  "crypto \<Rightarrow> drawn \<Rightarrow> string \<Rightarrow> error + EncryptedWallet" where
  "Tron_generateEncryptedWallet c r password =
     (if \<not> validateTronAddress (account_address r) then Inl (Error ''Generated address is invalid'')
      else encryptAccount c r password)"

definition Tron_decryptWallet ::
  "crypto \<Rightarrow> EncryptedWallet \<Rightarrow> string \<Rightarrow> error + (string \<times> string)" where
  "Tron_decryptWallet c encryptedWallet password =
     (if \<not> validateTronAddress (address encryptedWallet) then Inl (Error ''Invalid Tron address format'')
      else
        (case decryptPrivateKey c encryptedWallet password of
           Inl e \<Rightarrow> Inl e
         | Inr decryptedPrivateKey \<Rightarrow> Inr (address encryptedWallet, decryptedPrivateKey)))"

section \<open>Wallet service (services/WalletService.ts)\<close>

text \<open>What the four generator calls of \<open>generateAndStoreWallets\<close> draw.\<close>

record draws =
  eth_drawn :: drawn
  btc_drawn :: drawn
  sol_drawn :: drawn
  tron_drawn :: drawn

text \<open>\<open>DatabaseWalletData\<close>; the first two fields are \<open>{...ethWallet, chainId}\<close>.\<close>

record DatabaseWalletData =
  dw_ethereum :: EncryptedWallet
  dw_ethereum_chainId :: "int option"
  dw_bitcoin :: EncryptedBitcoinWallet
  dw_solana :: EncryptedWallet
  dw_tron :: EncryptedWallet

text \<open>
  \<open>chainId || CHAIN_IDS.ETHEREUM_MAINNET\<close> for an optional number: the default is taken when
  the argument is absent and when it is 0.
\<close>

definition chainId_or_default :: "int option \<Rightarrow> int" where
  "chainId_or_default chainId =
     (case chainId of
        None \<Rightarrow> CHAIN_IDS_ETHEREUM_MAINNET
      | Some n \<Rightarrow> if n = 0 then CHAIN_IDS_ETHEREUM_MAINNET else n)"

text \<open>
  A service method that writes to the store more than once returns the store it leaves
  behind also when it throws.
\<close>

definition generateAndStoreWallets ::
  "crypto \<Rightarrow> draws \<Rightarrow> string \<Rightarrow> string \<Rightarrow> int option \<Rightarrow> MockDatabase
     \<Rightarrow> (error + DatabaseWalletData) \<times> MockDatabase" where
  "generateAndStoreWallets c rs userId password chainId db =
     (case generateEncryptedWallet c (eth_drawn rs) password of
        Inl e \<Rightarrow> (Inl e, db)
      | Inr ethWallet \<Rightarrow>
     let ethWalletData =
           \<lparr>c_walletType = ethereum, c_address = address ethWallet,
            c_encryptedPrivateKey = encryptedPrivateKey ethWallet,
            c_salt = salt ethWallet, c_iv = iv ethWallet,
            c_network = None, c_chainId = Some (chainId_or_default chainId)\<rparr>
     in
     (case createWallet userId ethWalletData db of
        Inl e \<Rightarrow> (Inl e, db)
      | Inr (storedEthWallet, db1) \<Rightarrow>
     (case Bitcoin_generateEncryptedWallet c (btc_drawn rs) password ''mainnet'' of
        Inl e \<Rightarrow> (Inl e, db1)
      | Inr btcWallet \<Rightarrow>
     let btcWalletData =
           \<lparr>c_walletType = bitcoin, c_address = address btcWallet,
            c_encryptedPrivateKey = encryptedPrivateKey btcWallet,
            c_salt = salt btcWallet, c_iv = iv btcWallet,
            c_network = Some (network btcWallet), c_chainId = None\<rparr>
     in
     (case createWallet userId btcWalletData db1 of
        Inl e \<Rightarrow> (Inl e, db1)
      | Inr (storedBtcWallet, db2) \<Rightarrow>
     (case Solana_generateEncryptedWallet c (sol_drawn rs) password of
        Inl e \<Rightarrow> (Inl e, db2)
      | Inr solWallet \<Rightarrow>
     let solWalletData =
           \<lparr>c_walletType = solana, c_address = address solWallet,
            c_encryptedPrivateKey = encryptedPrivateKey solWallet,
            c_salt = salt solWallet, c_iv = iv solWallet,
            c_network = None, c_chainId = None\<rparr>
     in
     (case createWallet userId solWalletData db2 of
        Inl e \<Rightarrow> (Inl e, db2)
      | Inr (storedSolWallet, db3) \<Rightarrow>
     (case Tron_generateEncryptedWallet c (tron_drawn rs) password of
        Inl e \<Rightarrow> (Inl e, db3)
      | Inr tronWallet \<Rightarrow>
     let tronWalletData =
           \<lparr>c_walletType = tron, c_address = address tronWallet,
            c_encryptedPrivateKey = encryptedPrivateKey tronWallet,
            c_salt = salt tronWallet, c_iv = iv tronWallet,
            c_network = None, c_chainId = None\<rparr>
     in
     (case createWallet userId tronWalletData db3 of
        Inl e \<Rightarrow> (Inl e, db3)
      | Inr (storedTronWallet, db4) \<Rightarrow>
          (Inr \<lparr>dw_ethereum = ethWallet, dw_ethereum_chainId = c_chainId ethWalletData,
                dw_bitcoin = btcWallet, dw_solana = solWallet, dw_tron = tronWallet\<rparr>,
           db4)))))))))"

definition generateEthereumWallet ::
  "crypto \<Rightarrow> drawn \<Rightarrow> string \<Rightarrow> string \<Rightarrow> int \<Rightarrow> MockDatabase
     \<Rightarrow> error + (WalletRecord \<times> MockDatabase)" where
  "generateEthereumWallet c r userId password chainId db =
     (case generateEncryptedWallet c r password of
        Inl e \<Rightarrow> Inl e
      | Inr ethWallet \<Rightarrow>
          createWallet userId
            \<lparr>c_walletType = ethereum, c_address = address ethWallet,
             c_encryptedPrivateKey = encryptedPrivateKey ethWallet,
             c_salt = salt ethWallet, c_iv = iv ethWallet,
             c_network = None, c_chainId = Some chainId\<rparr> db)"

definition getWalletsByChain :: "string \<Rightarrow> int \<Rightarrow> MockDatabase \<Rightarrow> error + WalletRecord list" where
  "getWalletsByChain userId chainId db = getWalletsByChainId userId chainId db"

section \<open>The exchange gateway (api/ChangeNowAPI.ts)\<close>

datatype swapStatus =
  s_waiting | s_confirming | s_exchanging | s_sending | s_finished | s_failed | s_refunded

record SwapRate =
  r_estimatedAmount :: string
  r_rate :: string
  r_fee :: string
  r_networkFee :: string
  r_fromChainId :: "int option"
  r_toChainId :: "int option"

record SwapStatus =
  s_status :: swapStatus
  s_payinHash :: "string option"
  s_payoutHash :: "string option"
  s_fromAmount :: "string option"
  s_toAmount :: "string option"
  s_expectedToAmount :: "string option"

record SwapTransaction =
  x_id :: string
  x_payinAddress :: string
  x_payoutAddress :: string
  x_fromCurrency :: string
  x_toCurrency :: string
  x_expectedAmountFrom :: string
  x_expectedAmountTo :: string

text \<open>
  The three methods of the client end in an HTTP request, or with \<open>useMock\<close> in canned data
  made from the clock and \<open>Math.random\<close>. The model takes what each call returns or throws
  as given: one function per method.
\<close>

record ChangeNowAPI =
  getExchangeRate ::
    "string \<Rightarrow> string \<Rightarrow> string \<Rightarrow> int option \<Rightarrow> int option \<Rightarrow> error + SwapRate"
  createTransaction ::
    "string \<Rightarrow> string \<Rightarrow> string \<Rightarrow> string \<Rightarrow> string \<Rightarrow> int option \<Rightarrow> int option
       \<Rightarrow> error + SwapTransaction"
  getTransactionStatus :: "string \<Rightarrow> error + SwapStatus"

section \<open>Swap service (services/SwapService.ts)\<close>

text \<open>\<open>throw new Error(`${prefix}${error.message || 'Unknown error'}`)\<close> in a catch block.\<close>

definition rethrow :: "string \<Rightarrow> error \<Rightarrow> error" where
  "rethrow prefix e =
     Error (prefix @ (if message e = [] then ''Unknown error'' else message e))"

text \<open>The error thrown by \<open>createSwap\<close> when the lookup by id returns null.\<close>

definition walletNotFound :: "int \<Rightarrow> error" where
  "walletNotFound walletId = Error (''Wallet with ID '' @ number_toString walletId @ '' not found'')"

text \<open>The body of the \<open>try\<close> block of \<open>createSwap\<close>.\<close>

definition createSwap_try ::
  "ChangeNowAPI \<Rightarrow> int \<Rightarrow> string \<Rightarrow> string \<Rightarrow> string \<Rightarrow> string \<Rightarrow> string
     \<Rightarrow> int option \<Rightarrow> int option \<Rightarrow> MockDatabase
     \<Rightarrow> error + (TransactionRecord \<times> MockDatabase)" where
  "createSwap_try api walletId fromCurrency toCurrency fromAmount toAddress refundAddress
      fromChainId toChainId db =
     (case getWalletById walletId db of
        Inl e \<Rightarrow> Inl e
      | Inr None \<Rightarrow> Inl (walletNotFound walletId)
      | Inr (Some wallet) \<Rightarrow>
     (case createTransaction api fromCurrency toCurrency fromAmount toAddress refundAddress
             fromChainId toChainId of
        Inl e \<Rightarrow> Inl e
      | Inr swapTx \<Rightarrow>
     (case getExchangeRate api fromCurrency toCurrency fromAmount fromChainId toChainId of
        Inl e \<Rightarrow> Inl e
      | Inr rateData \<Rightarrow>
          recordTransaction
            \<lparr>d_walletId = walletId,
             d_transactionType = swap,
             d_fromAddress = w_address wallet,
             d_toAddress = toAddress,
             d_amount = fromAmount,
             d_currency = fromCurrency,
             d_fee = r_fee rateData,
             d_status = pending,
             d_hash = x_id swapTx,
             d_chainId = fromChainId,
             d_fromChainId = fromChainId,
             d_toChainId = toChainId\<rparr> db)))"

definition createSwap ::
  "ChangeNowAPI \<Rightarrow> int \<Rightarrow> string \<Rightarrow> string \<Rightarrow> string \<Rightarrow> string \<Rightarrow> string
     \<Rightarrow> int option \<Rightarrow> int option \<Rightarrow> MockDatabase
     \<Rightarrow> error + (TransactionRecord \<times> MockDatabase)" where
  "createSwap api walletId fromCurrency toCurrency fromAmount toAddress refundAddress
      fromChainId toChainId db =
     (case createSwap_try api walletId fromCurrency toCurrency fromAmount toAddress
             refundAddress fromChainId toChainId db of
        Inl e \<Rightarrow> Inl (rethrow ''Failed to create swap: '' e)
      | Inr r \<Rightarrow> Inr r)"

text \<open>
  The mapping inside the loop of \<open>updatePendingSwaps\<close>:
  \<^verbatim>\<open>
  if (swapStatus.status === 'finished') { newStatus = 'completed'; }
  else if (swapStatus.status === 'failed' || swapStatus.status === 'refunded') { newStatus = 'failed'; }
  else { newStatus = 'pending'; }
  \<close>
\<close>

definition newStatus :: "swapStatus \<Rightarrow> status" where
  "newStatus st =
     (if st = s_finished then completed
      else if st = s_failed \<or> st = s_refunded then failed
      else pending)"

text \<open>
  The loop of \<open>updatePendingSwaps\<close> over the scanned records, carrying \<open>updatedCount\<close> and the
  store. Whatever the inner \<open>try\<close> block throws is caught and logged, and the loop goes on
  with the next record.
\<close>

fun updatePendingSwaps_loop ::
  "ChangeNowAPI \<Rightarrow> TransactionRecord list \<Rightarrow> int \<Rightarrow> MockDatabase \<Rightarrow> int \<times> MockDatabase" where
  "updatePendingSwaps_loop api [] updatedCount db = (updatedCount, db)"
| "updatePendingSwaps_loop api (tx # rest) updatedCount db =
     (case getTransactionStatus api (t_hash tx) of
        Inl e \<Rightarrow> updatePendingSwaps_loop api rest updatedCount db
      | Inr swapStatus \<Rightarrow>
          if newStatus (s_status swapStatus) \<noteq> pending then
            (case updateTransaction (t_id tx)
                    \<lparr>p_status = Some (newStatus (s_status swapStatus)),
                     p_hash = None, p_fee = None\<rparr> db of
               Inl e \<Rightarrow> updatePendingSwaps_loop api rest updatedCount db
             | Inr (updated, db') \<Rightarrow>
                 updatePendingSwaps_loop api rest
                   (if updated then updatedCount + 1 else updatedCount) db')
          else updatePendingSwaps_loop api rest updatedCount db)"

text \<open>
  \<open>updatePendingSwaps\<close>: the call that fetches the pending records, the loop over the swaps
  among them, and the outer \<open>catch\<close> block, which wraps whatever the call throws. The result
  is the count and the store that the pass leaves.
\<close>

definition updatePendingSwaps ::
  "ChangeNowAPI \<Rightarrow> MockDatabase \<Rightarrow> error + (int \<times> MockDatabase)" where
  "updatePendingSwaps api db =
     (case getTransactionsByStatus pending db of
        Inl e \<Rightarrow> Inl (rethrow ''Failed to update pending swaps: '' e)
      | Inr pendingSwaps \<Rightarrow>
          Inr (updatePendingSwaps_loop api
                 (filter (\<lambda>tx. t_transactionType tx = swap) pendingSwaps) 0 db))"

section \<open>Stand-in primitives\<close>

text \<open>
  A hash and a block cipher of the right shape, small enough to reason about: the digest is
  32 copies of the sum of the bytes of the message, and a block is encrypted and decrypted by
  XOR with the first half of the key. They stand in for SHA-256 and AES-256 where a theorem
  about all primitives is run on one. The key derived under this hash depends on the
  password and on the salt.
\<close>

definition toy_crypto :: crypto where
  "toy_crypto =
     \<lparr>sha256 = (\<lambda>m. replicate 32 (sum_list m)),
      aes256_encrypt = (\<lambda>k b. xor_bytes b (take 16 k)),
      aes256_decrypt = (\<lambda>k b. xor_bytes b (take 16 k))\<rparr>"

text \<open>
  Under the stand-in hash, HMAC with a password as its key sends every digest to 32 copies
  of this byte.
\<close>

definition toy_kappa :: "string \<Rightarrow> byte" where
  "toy_kappa password =
     (let kb = hmac_key_block toy_crypto (utf8_bytes password)
      in sum_list (map (\<lambda>b. b XOR 0x5c) kb) + 32 * sum_list (map (\<lambda>b. b XOR 0x36) kb))"

section \<open>Example values\<close>

text \<open>Concrete records, stores and gateway answers on which the theorems below are run.\<close>

definition example_walletData :: "string \<Rightarrow> CreateWalletData" where
  "example_walletData a =
     \<lparr>c_walletType = bitcoin, c_address = a, c_encryptedPrivateKey = ''00'',
      c_salt = ''00'', c_iv = ''00'', c_network = Some ''mainnet'', c_chainId = None\<rparr>"

definition example_transactionData :: "int \<Rightarrow> transactionType \<Rightarrow> status \<Rightarrow> string \<Rightarrow> TransactionData" where
  "example_transactionData w k s h =
     \<lparr>d_walletId = w, d_transactionType = k, d_fromAddress = ''1AbC'', d_toAddress = ''1xYz'',
      d_amount = ''1.5'', d_currency = ''BTC'', d_fee = ''0.002'', d_status = s, d_hash = h,
      d_chainId = None, d_fromChainId = None, d_toChainId = None\<rparr>"

definition example_wallet :: "int \<Rightarrow> string \<Rightarrow> string \<Rightarrow> WalletRecord" where
  "example_wallet i u a =
     \<lparr>w_id = i, w_userId = u, w_walletType = bitcoin, w_address = a,
      w_encryptedPrivateKey = ''00'', w_salt = ''00'', w_iv = ''00'',
      w_network = Some ''mainnet'', w_chainId = None\<rparr>"

definition example_transaction :: "int \<Rightarrow> transactionType \<Rightarrow> status \<Rightarrow> string \<Rightarrow> TransactionRecord" where
  "example_transaction i k s h =
     \<lparr>t_id = i, t_walletId = 1, t_transactionType = k, t_fromAddress = ''1AbC'',
      t_toAddress = ''1xYz'', t_amount = ''1.5'', t_currency = ''BTC'', t_fee = ''0.002'',
      t_status = s, t_hash = h, t_chainId = None, t_fromChainId = None, t_toChainId = None\<rparr>"

definition example_db :: "WalletRecord list \<Rightarrow> TransactionRecord list \<Rightarrow> MockDatabase" where
  "example_db ws ts =
     \<lparr>wallets = ws, transactions = ts, walletIdCounter = 1 + int (length ws),
      transactionIdCounter = 1 + int (length ts), connected = True\<rparr>"

definition example_status :: "swapStatus \<Rightarrow> SwapStatus" where
  "example_status s =
     \<lparr>s_status = s, s_payinHash = Some ''0xmock'', s_payoutHash = None,
      s_fromAmount = Some ''1.0'', s_toAmount = Some ''15.5'', s_expectedToAmount = Some ''15.7''\<rparr>"

definition example_lookup :: "string \<Rightarrow> error + SwapStatus" where
  "example_lookup h =
     (if h = ''a4'' then Inr (example_status s_finished)
      else if h = ''b9'' then Inl (Error ''Failed to get transaction status: timeout'')
      else if h = ''c5'' then Inr (example_status s_failed)
      else Inr (example_status s_waiting))"

definition example_api :: "(string \<Rightarrow> error + SwapStatus) \<Rightarrow> ChangeNowAPI" where
  "example_api lookup =
     \<lparr>getExchangeRate = (\<lambda>fromCurrency toCurrency amount fromChainId toChainId.
        Inr \<lparr>r_estimatedAmount = ''0.065'', r_rate = ''0.065'', r_fee = ''0.01'',
             r_networkFee = ''0.0005'', r_fromChainId = fromChainId, r_toChainId = toChainId\<rparr>),
      createTransaction = (\<lambda>fromCurrency toCurrency amount toAddress refundAddress fromChainId toChainId.
        Inr \<lparr>x_id = ''mock-tx-1700000000000-424'', x_payinAddress = ''mock-address-eth'',
             x_payoutAddress = toAddress, x_fromCurrency = fromCurrency,
             x_toCurrency = toCurrency, x_expectedAmountFrom = amount,
             x_expectedAmountTo = ''0.065''\<rparr>),
      getTransactionStatus = lookup\<rparr>"

definition example_pending :: "TransactionRecord list" where
  "example_pending =
     [example_transaction 1 swap pending ''a4'', example_transaction 2 swap pending ''b9'',
      example_transaction 3 swap pending ''c5'', example_transaction 4 send pending ''a4'',
      example_transaction 5 swap completed ''c5'', example_transaction 6 swap pending ''d0'']"

definition example_swap :: "status \<Rightarrow> TransactionRecord" where
  "example_swap s =
     \<lparr>t_id = 2, t_walletId = 1, t_transactionType = swap, t_fromAddress = ''0xAb'',
      t_toAddress = ''1AbC'', t_amount = ''1.0'', t_currency = ''ETH'', t_fee = ''0.01'',
      t_status = s, t_hash = ''mock-tx-1700000000000-424'', t_chainId = Some 1,
      t_fromChainId = Some 1, t_toChainId = None\<rparr>"

definition example_drawn :: "string \<Rightarrow> string \<Rightarrow> drawn" where
  "example_drawn a k =
     \<lparr>account_address = a, account_privateKey = k,
      salt_bytes = replicate 16 0x5a, iv_bytes = replicate 16 0x3c\<rparr>"

text \<open>An account as \<open>ethers.Wallet.createRandom()\<close> makes one, with a salt and a vector.\<close>

definition example_account :: drawn where
  "example_account =
     \<lparr>account_address = ''0x2c7536E3605D9C16a7a3D7b1898e529396a65c23'',
      account_privateKey = ''0x4c0883a69102937d6231471b5dbb6204fe5129617082792ae468d01a3f362318'',
      salt_bytes = [0x9f, 0x86, 0xd0, 0x81, 0x88, 0x4c, 0x7d, 0x65,
                    0x9a, 0x2f, 0xea, 0xa0, 0xc5, 0x5a, 0xd0, 0x15],
      iv_bytes = [0xa3, 0xbf, 0x4f, 0x1b, 0x2b, 0x0b, 0x82, 0x2c,
                  0xd1, 0x5d, 0x6c, 0x15, 0xb0, 0xf0, 0x0a, 0x08]\<rparr>"

definition example_draws :: draws where
  "example_draws =
     \<lparr>eth_drawn = example_drawn ''0xAbCdEf12'' ''0x0123456789abcdef'',
      btc_drawn = example_drawn ''1AbC'' ''KwDiBf89'',
      sol_drawn = example_drawn ''So1ana'' ''5Kb8kLf9'',
      tron_drawn = example_drawn ''TRjE1H8dxypKM1NZRdysbs9wo7huR4bdNz'' ''a1b2c3d4''\<rparr>"

definition example_draws_polygon :: draws where
  "example_draws_polygon =
     \<lparr>eth_drawn = example_drawn ''0x5566AaBb'' ''0x00112233445566778899'',
      btc_drawn = example_drawn ''1xYz'' ''L1aW4aubD'',
      sol_drawn = example_drawn ''So1anb'' ''3QJmnh'',
      tron_drawn = example_drawn ''TJRabPrwbZy45sbavfcjinPJC18kjpRTv8'' ''e5f6a7b8''\<rparr>"

section \<open>Letter case\<close>

lemma of_char_lt_256: "(of_char c :: nat) < 256"
  by (cases c) (simp add: of_char_def horner_sum_eq_sum)

lemma lower_char_same_letter: "same_letter x y \<Longrightarrow> lower_char x = lower_char y"
proof -
  have up: "lower_char b = b" "lower_char a = b"
    if "is_upper a" "(of_char b :: nat) = of_char a + 32" for a b
  proof -
    from that have "\<not> is_upper b" by (simp add: is_upper_def)
    then show "lower_char b = b" by (simp add: lower_char_def)
    have "char_of ((of_char a :: nat) + 32) = char_of (of_char b :: nat)"
      using that by simp
    also have "\<dots> = b" by simp
    finally show "lower_char a = b" using that(1) by (simp add: lower_char_def)
  qed
  assume "same_letter x y"
  then consider "x = y" | "is_upper x \<and> (of_char y :: nat) = of_char x + 32"
    | "is_upper y \<and> (of_char x :: nat) = of_char y + 32"
    unfolding same_letter_def by blast
  then show ?thesis
    by cases (auto simp: up)
qed

lemma differs_only_in_case_toLowerCase:
  "differs_only_in_case a b \<Longrightarrow> toLowerCase a = toLowerCase b"
  unfolding differs_only_in_case_def toLowerCase_def
  by (induction a b rule: list_all2_induct) (auto simp: lower_char_same_letter)

lemma of_char_lower_char:
  "(of_char (lower_char x) :: nat) = (if is_upper x then of_char x + 32 else of_char x)"
  by (simp add: lower_char_def is_upper_def)

lemma same_letter_lower_char:
  assumes "lower_char x = lower_char y" shows "same_letter x y"
proof -
  from assms have e: "(of_char (lower_char x) :: nat) = of_char (lower_char y)" by simp
  show ?thesis
  proof (cases "is_upper x"; cases "is_upper y")
    assume "is_upper x" "is_upper y"
    with e have "(of_char x :: nat) = of_char y" by (simp add: of_char_lower_char)
    then show ?thesis by (simp add: same_letter_def)
  next
    assume "is_upper x" "\<not> is_upper y"
    with e show ?thesis by (simp add: of_char_lower_char same_letter_def)
  next
    assume "\<not> is_upper x" "is_upper y"
    with e show ?thesis by (simp add: of_char_lower_char same_letter_def)
  next
    assume "\<not> is_upper x" "\<not> is_upper y"
    with assms show ?thesis by (simp add: lower_char_def same_letter_def)
  qed
qed

lemma toLowerCase_differs_only_in_case:
  "toLowerCase a = toLowerCase b \<Longrightarrow> differs_only_in_case a b"
  unfolding differs_only_in_case_def toLowerCase_def
  by (induction a arbitrary: b) (auto simp: same_letter_lower_char)

lemma differs_only_in_case_ascii_text:
  "differs_only_in_case a b \<Longrightarrow> ascii_text b \<Longrightarrow> ascii_text a"
  unfolding differs_only_in_case_def ascii_text_def
  by (induction a b rule: list_all2_induct) (auto simp: same_letter_def is_ascii_def is_upper_def)

section \<open>Facts about the in-memory store\<close>

subsection \<open>Lookups\<close>

lemma find_first:
  assumes "i < length xs" "P (xs ! i)" "\<forall>j<i. \<not> P (xs ! j)"
  shows "find P xs = Some (xs ! i)"
  using assms by (auto simp: find_Some_iff)

lemma getWallet_first_match:
  assumes "connected db" "i < length (wallets db)"
    and "differs_only_in_case a (w_address (wallets db ! i))"
    and "\<forall>j<i. \<not> (w_userId (wallets db ! j) = w_userId (wallets db ! i)
                 \<and> differs_only_in_case (w_address (wallets db ! j)) (w_address (wallets db ! i)))"
  shows "getWallet (w_userId (wallets db ! i)) a db = Inr (Some (wallets db ! i))"
proof -
  have a: "toLowerCase a = toLowerCase (w_address (wallets db ! i))"
    using assms(3) by (rule differs_only_in_case_toLowerCase)
  have "find (\<lambda>w. w_userId w = w_userId (wallets db ! i)
                 \<and> toLowerCase (w_address w) = toLowerCase a) (wallets db)
        = Some (wallets db ! i)"
  proof (rule find_first)
    show "i < length (wallets db)" by fact
    show "w_userId (wallets db ! i) = w_userId (wallets db ! i)
          \<and> toLowerCase (w_address (wallets db ! i)) = toLowerCase a"
      using a by simp
    show "\<forall>j<i. \<not> (w_userId (wallets db ! j) = w_userId (wallets db ! i)
                  \<and> toLowerCase (w_address (wallets db ! j)) = toLowerCase a)"
      using assms(4) a by (auto dest: toLowerCase_differs_only_in_case)
  qed
  then show ?thesis using assms(1) by (simp add: getWallet_def ensureConnected_def)
qed

lemma getTransactionsByHash_first_match:
  assumes "connected db" "i < length (transactions db)"
    and "differs_only_in_case h (t_hash (transactions db ! i))"
    and "\<forall>j<i. \<not> differs_only_in_case (t_hash (transactions db ! j)) (t_hash (transactions db ! i))"
  shows "getTransactionsByHash h db = Inr (Some (transactions db ! i))"
proof -
  have a: "toLowerCase h = toLowerCase (t_hash (transactions db ! i))"
    using assms(3) by (rule differs_only_in_case_toLowerCase)
  have "find (\<lambda>t. toLowerCase (t_hash t) = toLowerCase h) (transactions db)
        = Some (transactions db ! i)"
  proof (rule find_first)
    show "i < length (transactions db)" by fact
    show "toLowerCase (t_hash (transactions db ! i)) = toLowerCase h"
      using a by simp
    show "\<forall>j<i. \<not> toLowerCase (t_hash (transactions db ! j)) = toLowerCase h"
      using assms(4) a by (auto dest: toLowerCase_differs_only_in_case)
  qed
  then show ?thesis using assms(1) by (simp add: getTransactionsByHash_def ensureConnected_def)
qed

lemma getWallet_owner_exact:
  "getWallet u a db = Inr (Some w) \<Longrightarrow> w \<in> set (wallets db) \<and> w_userId w = u"
  by (auto simp: getWallet_def ensureConnected_def find_Some_iff split: if_splits)

lemma getWalletsByChainId_exact:
  "getWalletsByChainId u c db = Inr ws \<Longrightarrow>
     set ws = {w \<in> set (wallets db). w_userId w = u \<and> w_chainId w = Some c}"
  by (auto simp: getWalletsByChainId_def ensureConnected_def split: if_splits)

lemma find_None_ids:
  "a \<notin> t_id ` set xs \<Longrightarrow> find (\<lambda>x. t_id x = a) xs = None"
  by (auto simp: find_None_iff)

lemma find_filter_unique:
  assumes "distinct (map f ts)" "t \<in> set ts"
  shows "find (\<lambda>x. f x = f t) (filter P ts) = (if P t then Some t else None)"
  using assms
proof (induction ts)
  case Nil
  then show ?case by simp
next
  case (Cons a ts)
  show ?case
  proof (cases "a = t")
    case True
    from Cons.prems(1) True have "f t \<notin> f ` set ts" by simp
    then have "\<forall>x\<in>set ts. f x \<noteq> f t" by (auto simp: image_iff)
    then have "find (\<lambda>x. f x = f t) (filter P ts) = None"
      by (simp add: find_None_iff)
    with True show ?thesis by simp
  next
    case False
    with Cons.prems have t: "t \<in> set ts" and "f a \<noteq> f t" by auto
    with Cons show ?thesis by simp
  qed
qed

subsection \<open>Updating a transaction\<close>

lemma findIndex_None: "findIndex P xs = None \<longleftrightarrow> (\<forall>x\<in>set xs. \<not> P x)"
  by (induction xs) (auto split: option.splits)

lemma findIndex_Some:
  "findIndex P xs = Some i \<Longrightarrow> i < length xs \<and> P (xs ! i) \<and> (\<forall>j<i. \<not> P (xs ! j))"
proof (induction xs arbitrary: i)
  case Nil
  then show ?case by simp
next
  case (Cons x xs)
  show ?case
  proof (cases "P x")
    case True
    with Cons.prems show ?thesis by simp
  next
    case False
    with Cons.prems obtain k where k: "findIndex P xs = Some k" "i = Suc k"
      by (auto split: option.splits)
    from Cons.IH [OF k(1)] False k(2) show ?thesis
      by (auto simp: nth_Cons split: nat.splits)
  qed
qed

lemma update_unique:
  assumes "distinct (map f xs)" "i < length xs" "f (xs ! i) = a"
  shows "xs[i := g (xs ! i)] = map (\<lambda>x. if f x = a then g x else x) xs"
proof (rule nth_equalityI)
  show "length (xs[i := g (xs ! i)]) = length (map (\<lambda>x. if f x = a then g x else x) xs)"
    by simp
next
  fix j assume "j < length (xs[i := g (xs ! i)])"
  then have j: "j < length xs" by simp
  show "xs[i := g (xs ! i)] ! j = map (\<lambda>x. if f x = a then g x else x) xs ! j"
  proof (cases "j = i")
    case True
    with assms show ?thesis by simp
  next
    case False
    have "f (xs ! j) \<noteq> f (xs ! i)"
      using assms(1,2) j False by (simp add: distinct_conv_nth)
    with False j assms(3) show ?thesis by simp
  qed
qed

lemma t_id_spread [simp]: "t_id (spread t data) = t_id t"
  by (simp add: spread_def)

lemma spread_status:
  "spread t \<lparr>p_status = Some s, p_hash = None, p_fee = None\<rparr> = t\<lparr>t_status := s\<rparr>"
  by (simp add: spread_def)

lemma updateTransaction_connected:
  assumes "connected db"
  shows "\<exists>db'. updateTransaction ident data db = Inr (ident \<in> t_id ` set (transactions db), db')
           \<and> connected db' \<and> wallets db' = wallets db
           \<and> walletIdCounter db' = walletIdCounter db
           \<and> transactionIdCounter db' = transactionIdCounter db
           \<and> map t_id (transactions db') = map t_id (transactions db)"
proof (cases "findIndex (\<lambda>t. t_id t = ident) (transactions db)")
  case None
  then have "ident \<notin> t_id ` set (transactions db)"
    by (auto simp: findIndex_None)
  with None assms show ?thesis
    by (simp add: updateTransaction_def ensureConnected_def)
next
  case (Some i)
  from findIndex_Some [OF Some] have "ident \<in> t_id ` set (transactions db)"
    by (metis imageI nth_mem)
  moreover have "map t_id ((transactions db)[i := spread (transactions db ! i) data])
                 = map t_id (transactions db)"
    using findIndex_Some [OF Some] by (simp add: map_update list_update_same_conv)
  ultimately show ?thesis using Some assms
    by (simp add: updateTransaction_def ensureConnected_def)
qed

lemma updateTransaction_map:
  assumes "connected db" "distinct (map t_id (transactions db))"
  shows "updateTransaction ident data db =
           Inr (ident \<in> t_id ` set (transactions db),
                db\<lparr>transactions :=
                     map (\<lambda>t. if t_id t = ident then spread t data else t) (transactions db)\<rparr>)"
proof (cases "findIndex (\<lambda>t. t_id t = ident) (transactions db)")
  case None
  then have n: "\<forall>t\<in>set (transactions db). t_id t \<noteq> ident"
    by (simp add: findIndex_None)
  then have "map (\<lambda>t. if t_id t = ident then spread t data else t) (transactions db)
             = transactions db"
    by (simp add: map_idI)
  moreover from n have "ident \<notin> t_id ` set (transactions db)" by auto
  ultimately show ?thesis using None assms(1)
    by (simp add: updateTransaction_def ensureConnected_def)
next
  case (Some i)
  from findIndex_Some [OF Some]
  have i: "i < length (transactions db)" "t_id (transactions db ! i) = ident" by simp_all
  then have "ident \<in> t_id ` set (transactions db)"
    by (metis imageI nth_mem)
  moreover have "(transactions db)[i := spread (transactions db ! i) data]
        = map (\<lambda>t. if t_id t = ident then spread t data else t) (transactions db)"
    using assms(2) i by (rule update_unique)
  ultimately show ?thesis using Some assms(1)
    by (simp add: updateTransaction_def ensureConnected_def)
qed

lemma recordTransaction_Inr:
  assumes "recordTransaction d db = Inr (tx, db1)"
  shows "connected db \<and> t_id tx = transactionIdCounter db \<and> t_status tx = d_status d
       \<and> t_transactionType tx = d_transactionType d \<and> t_hash tx = d_hash d
       \<and> t_walletId tx = d_walletId d
       \<and> db1 = db\<lparr>transactionIdCounter := transactionIdCounter db + 1,
                    transactions := transactions db @ [tx]\<rparr>"
  using assms
  by (auto simp: recordTransaction_def ensureConnected_def Let_def split: if_splits)

subsection \<open>Deleting a wallet\<close>

text \<open>
  The in-memory \<open>deleteWallet\<close> leaves the transactions of the wallet where they are; the
  relational one deletes them first.
\<close>

lemma deleteWallet_transactions:
  "deleteWallet walletId db = Inr (b, db') \<Longrightarrow>
     getTransactionsByWallet walletId db' = getTransactionsByWallet walletId db"
  by (auto simp: deleteWallet_def getTransactionsByWallet_def ensureConnected_def Let_def
      split: if_splits)

lemma MySQL_deleteWallet_cascades:
  "MySQL_deleteWallet walletId db = Inr (b, db') \<Longrightarrow>
     MySQL_getTransactionsByWallet walletId db' = Inr []"
  by (auto simp: MySQL_deleteWallet_def MySQL_getTransactionsByWallet_def Let_def
      filter_empty_conv split: if_splits)

section \<open>Facts about the reconciliation pass\<close>

lemma loop_append:
  "updatePendingSwaps_loop api (xs @ ys) k db =
     (case updatePendingSwaps_loop api xs k db of
        (k', db') \<Rightarrow> updatePendingSwaps_loop api ys k' db')"
proof (induction xs arbitrary: k db)
  case Nil
  then show ?case by simp
next
  case (Cons x xs)
  show ?case
    by (simp add: Cons.IH split: sum.splits prod.splits)
qed

lemma loop_skip:
  assumes "getTransactionStatus api (t_hash x) = Inl e"
  shows "updatePendingSwaps_loop api (xs @ x # ys) k db =
         updatePendingSwaps_loop api (xs @ ys) k db"
  using assms by (simp add: loop_append split: prod.splits)

lemma loop_count:
  assumes "connected db" "t_id ` set xs \<subseteq> set (map t_id (transactions db))"
  shows "\<exists>db'. updatePendingSwaps_loop api xs k db =
           (k + int (length (filter
                  (\<lambda>tx. case getTransactionStatus api (t_hash tx) of
                           Inl e \<Rightarrow> False
                         | Inr st \<Rightarrow> newStatus (s_status st) \<noteq> pending) xs)), db')
         \<and> connected db'"
  using assms
proof (induction xs arbitrary: k db)
  case Nil
  then show ?case by simp
next
  case (Cons x xs)
  show ?case
  proof (cases "getTransactionStatus api (t_hash x)")
    case (Inl e)
    with Cons.IH [of db k] Cons.prems show ?thesis by simp
  next
    case (Inr st)
    show ?thesis
    proof (cases "newStatus (s_status st) = pending")
      case True
      with Inr Cons.IH [of db k] Cons.prems show ?thesis by simp
    next
      case False
      from Cons.prems have mem: "t_id x \<in> t_id ` set (transactions db)" by auto
      obtain db1 where u: "updateTransaction (t_id x)
            \<lparr>p_status = Some (newStatus (s_status st)), p_hash = None, p_fee = None\<rparr> db
            = Inr (True, db1)"
        and db1: "connected db1" "map t_id (transactions db1) = map t_id (transactions db)"
        using updateTransaction_connected [OF Cons.prems(1), of "t_id x"] mem by auto
      from Cons.prems db1 have "t_id ` set xs \<subseteq> set (map t_id (transactions db1))" by simp
      from Cons.IH [OF db1(1) this, of "k + 1"] Inr False u show ?thesis
        by auto
    qed
  qed
qed

lemma loop_transactions:
  assumes "connected db" "distinct (map t_id (transactions db))" "distinct (map t_id xs)"
  shows "snd (updatePendingSwaps_loop api xs k db) =
     db\<lparr>transactions :=
          map (\<lambda>t. case find (\<lambda>x. t_id x = t_id t) xs of
                     None \<Rightarrow> t
                   | Some x \<Rightarrow>
                       (case getTransactionStatus api (t_hash x) of
                          Inl e \<Rightarrow> t
                        | Inr st \<Rightarrow>
                            if newStatus (s_status st) \<noteq> pending
                            then t\<lparr>t_status := newStatus (s_status st)\<rparr> else t))
              (transactions db)\<rparr>"
  using assms
proof (induction xs arbitrary: k db)
  case Nil
  then show ?case by simp
next
  case (Cons x xs)
  let ?G = "\<lambda>ys t. case find (\<lambda>x. t_id x = t_id t) ys of
                     None \<Rightarrow> t
                   | Some x \<Rightarrow>
                       (case getTransactionStatus api (t_hash x) of
                          Inl e \<Rightarrow> t
                        | Inr st \<Rightarrow>
                            if newStatus (s_status st) \<noteq> pending
                            then t\<lparr>t_status := newStatus (s_status st)\<rparr> else t)"
  from Cons.prems have dx: "t_id x \<notin> t_id ` set xs" and dxs: "distinct (map t_id xs)"
    by auto
  have none: "find (\<lambda>y. t_id y = t_id x) xs = None"
    using dx by (rule find_None_ids)
  have ih: "snd (updatePendingSwaps_loop api xs k' db') =
              db'\<lparr>transactions := map (?G xs) (transactions db')\<rparr>"
    if "connected db'" "distinct (map t_id (transactions db'))" for k' db'
    using Cons.IH [OF that dxs] .
  show ?case
  proof (cases "getTransactionStatus api (t_hash x)")
    case (Inl e)
    have g: "?G (x # xs) = ?G xs"
    proof (rule ext)
      fix t show "?G (x # xs) t = ?G xs t"
        using Inl none by (cases "t_id x = t_id t") simp_all
    qed
    have "snd (updatePendingSwaps_loop api (x # xs) k db) =
          snd (updatePendingSwaps_loop api xs k db)"
      using Inl by simp
    also have "\<dots> = db\<lparr>transactions := map (?G xs) (transactions db)\<rparr>"
      by (rule ih [OF Cons.prems(1,2)])
    finally show ?thesis by (subst g)
  next
    case (Inr st)
    show ?thesis
    proof (cases "newStatus (s_status st) = pending")
      case True
      have g: "?G (x # xs) = ?G xs"
      proof (rule ext)
        fix t show "?G (x # xs) t = ?G xs t"
          using Inr True none by (cases "t_id x = t_id t") simp_all
      qed
      have "snd (updatePendingSwaps_loop api (x # xs) k db) =
            snd (updatePendingSwaps_loop api xs k db)"
        using Inr True by simp
      also have "\<dots> = db\<lparr>transactions := map (?G xs) (transactions db)\<rparr>"
        by (rule ih [OF Cons.prems(1,2)])
      finally show ?thesis by (subst g)
    next
      case False
      let ?step = "\<lambda>t. if t_id t = t_id x then t\<lparr>t_status := newStatus (s_status st)\<rparr> else t"
      let ?db1 = "db\<lparr>transactions := map ?step (transactions db)\<rparr>"
      have u: "updateTransaction (t_id x)
            \<lparr>p_status = Some (newStatus (s_status st)), p_hash = None, p_fee = None\<rparr> db
            = Inr (t_id x \<in> t_id ` set (transactions db), ?db1)"
        using updateTransaction_map [OF Cons.prems(1,2)] by (simp add: spread_status)
      have ids: "t_id \<circ> ?step = t_id"
        by (rule ext) simp
      have c1: "connected ?db1" using Cons.prems(1) by simp
      have d1: "distinct (map t_id (transactions ?db1))"
        using Cons.prems(2) by (simp add: ids)
      have comp: "(\<lambda>t. ?G xs (?step t)) = ?G (x # xs)"
      proof (rule ext)
        fix t show "?G xs (?step t) = ?G (x # xs) t"
        proof (cases "t_id t = t_id x")
          case True
          then show ?thesis using Inr False none by simp
        next
          case F: False
          then have "t_id x \<noteq> t_id t" by simp
          with F show ?thesis by simp
        qed
      qed
      have "snd (updatePendingSwaps_loop api (x # xs) k db) =
            snd (updatePendingSwaps_loop api xs
                  (if t_id x \<in> t_id ` set (transactions db) then k + 1 else k) ?db1)"
        using Inr False u by simp
      also have "\<dots> = ?db1\<lparr>transactions := map (?G xs) (transactions ?db1)\<rparr>"
        by (rule ih [OF c1 d1])
      also have "\<dots> = db\<lparr>transactions := map (\<lambda>t. ?G xs (?step t)) (transactions db)\<rparr>"
        by (simp add: comp_def)
      finally show ?thesis by (subst comp [symmetric])
    qed
  qed
qed

text \<open>
  The loop on the pending swaps of a connected store with distinct identifiers: the count
  is the number of scanned records whose lookup returned a status that projects to completed
  or failed, and the store has exactly these records at their projected status.
\<close>

lemma loop_on_pending:
  assumes "connected db" "distinct (map t_id (transactions db))"
  shows "updatePendingSwaps_loop api
           (filter (\<lambda>t. t_status t = pending \<and> t_transactionType t = swap) (transactions db))
           0 db =
     (int (length (filter
                  (\<lambda>tx. case getTransactionStatus api (t_hash tx) of
                           Inl e \<Rightarrow> False
                         | Inr st \<Rightarrow> newStatus (s_status st) \<noteq> pending)
                  (filter (\<lambda>t. t_status t = pending \<and> t_transactionType t = swap)
                     (transactions db)))),
      db\<lparr>transactions :=
          map (\<lambda>t. if t_status t = pending \<and> t_transactionType t = swap then
                      (case getTransactionStatus api (t_hash t) of
                         Inl e \<Rightarrow> t
                       | Inr st \<Rightarrow> t\<lparr>t_status := newStatus (s_status st)\<rparr>)
                    else t)
              (transactions db)\<rparr>)"
proof -
  let ?P = "\<lambda>t. t_status t = pending \<and> t_transactionType t = swap"
  let ?xs = "filter ?P (transactions db)"
  let ?G = "\<lambda>t. case find (\<lambda>x. t_id x = t_id t) ?xs of
                     None \<Rightarrow> t
                   | Some x \<Rightarrow>
                       (case getTransactionStatus api (t_hash x) of
                          Inl e \<Rightarrow> t
                        | Inr st \<Rightarrow>
                            if newStatus (s_status st) \<noteq> pending
                            then t\<lparr>t_status := newStatus (s_status st)\<rparr> else t)"
  let ?R = "\<lambda>t. if ?P t then
                      (case getTransactionStatus api (t_hash t) of
                         Inl e \<Rightarrow> t
                       | Inr st \<Rightarrow> t\<lparr>t_status := newStatus (s_status st)\<rparr>)
                    else t"
  have dx: "distinct (map t_id ?xs)"
    using assms(2) by (rule distinct_map_filter)
  have eq: "?G t = ?R t" if "t \<in> set (transactions db)" for t
  proof (cases "?P t")
    case True
    then have f: "find (\<lambda>x. t_id x = t_id t) ?xs = Some t"
      using find_filter_unique [OF assms(2) that, of ?P] by simp
    show ?thesis
    proof (cases "getTransactionStatus api (t_hash t)")
      case (Inl e)
      with f True show ?thesis by simp
    next
      case (Inr st)
      with f True show ?thesis by simp
    qed
  next
    case False
    then have f: "find (\<lambda>x. t_id x = t_id t) ?xs = None"
      using find_filter_unique [OF assms(2) that, of ?P] by simp
    with False show ?thesis by auto
  qed
  have m: "map ?G (transactions db) = map ?R (transactions db)"
    by (rule map_cong [OF refl eq])
  have "snd (updatePendingSwaps_loop api ?xs 0 db) = db\<lparr>transactions := map ?G (transactions db)\<rparr>"
    by (rule loop_transactions [OF assms dx])
  then have s: "snd (updatePendingSwaps_loop api ?xs 0 db) = db\<lparr>transactions := map ?R (transactions db)\<rparr>"
    by (simp only: m)
  have "t_id ` set ?xs \<subseteq> set (map t_id (transactions db))" by auto
  from loop_count [OF assms(1) this, of api 0]
  have f: "fst (updatePendingSwaps_loop api ?xs 0 db) =
           int (length (filter
                  (\<lambda>tx. case getTransactionStatus api (t_hash tx) of
                           Inl e \<Rightarrow> False
                         | Inr st \<Rightarrow> newStatus (s_status st) \<noteq> pending) ?xs))"
    by auto
  show ?thesis
    by (rule prod_eqI) (simp_all only: f s fst_conv snd_conv)
qed

text \<open>
  The pass never reaches its loop: the call that should fetch the pending records throws,
  and the outer \<open>catch\<close> block wraps the error.
\<close>

lemma updatePendingSwaps_throws:
  "updatePendingSwaps api db =
     Inl (Error ''Failed to update pending swaps: this.db.getTransactionsByStatus is not a function'')"
  by (simp add: updatePendingSwaps_def getTransactionsByStatus_def rethrow_def)

lemma createSwap_Inr:
  assumes "createSwap api walletId fc tc amt toAddr refund fcid tcid db = Inr (tx, db1)"
  shows "connected db \<and> t_id tx = transactionIdCounter db \<and> t_status tx = pending
       \<and> t_transactionType tx = swap \<and> t_walletId tx = walletId
       \<and> db1 = db\<lparr>transactionIdCounter := transactionIdCounter db + 1,
                    transactions := transactions db @ [tx]\<rparr>"
proof -
  from assms obtain d where d: "recordTransaction d db = Inr (tx, db1)"
    "d_status d = pending" "d_transactionType d = swap" "d_walletId d = walletId"
    by (auto simp: createSwap_def createSwap_try_def split: sum.splits option.splits)
  from recordTransaction_Inr [OF d(1)] d(2-) show ?thesis by simp
qed

section \<open>The identifier invariant\<close>

text \<open>
  \<^const>\<open>ids_issued\<close> holds of a new store and is kept by every store operation modelled
  here, and by the loop of the reconciliation pass.
\<close>

lemma ids_issued_new: "ids_issued new_MockDatabase"
  by (simp add: ids_issued_def new_MockDatabase_def)

lemma ids_issued_connect: "ids_issued db \<Longrightarrow> ids_issued (connect db)"
  by (simp add: ids_issued_def connect_def)

lemma ids_issued_disconnect: "ids_issued db \<Longrightarrow> ids_issued (disconnect db)"
  by (simp add: ids_issued_def disconnect_def)

lemma ids_issued_createWallet:
  assumes "ids_issued db" "createWallet u d db = Inr (w, db')"
  shows "ids_issued db'"
proof -
  from assms(2) have w: "w_id w = walletIdCounter db"
    and db': "db' = db\<lparr>walletIdCounter := walletIdCounter db + 1, wallets := wallets db @ [w]\<rparr>"
    by (auto simp: createWallet_def ensureConnected_def Let_def split: if_splits)
  from assms(1) have "\<forall>x\<in>set (wallets db). w_id x < walletIdCounter db"
    by (simp add: ids_issued_def list_all_iff)
  then have "w_id w \<notin> w_id ` set (wallets db)"
    "\<forall>x\<in>set (wallets db). w_id x < walletIdCounter db + 1"
    using w by auto
  with assms(1) w show ?thesis
    by (simp add: ids_issued_def db' list_all_iff)
qed

lemma ids_issued_deleteWallet:
  assumes "ids_issued db" "deleteWallet i db = Inr (b, db')"
  shows "ids_issued db'"
proof -
  from assms(2) have db': "db' = db\<lparr>wallets := filter (\<lambda>w. w_id w \<noteq> i) (wallets db)\<rparr>"
    by (auto simp: deleteWallet_def ensureConnected_def Let_def split: if_splits)
  from assms(1) show ?thesis
    by (simp add: ids_issued_def db' list_all_iff distinct_map_filter)
qed

lemma ids_issued_updateWallet:
  assumes "ids_issued db" "updateWallet i data db = Inr (b, db')"
  shows "ids_issued db'"
proof (cases "findIndex (\<lambda>w. w_id w = i) (wallets db)")
  case None
  with assms show ?thesis
    by (auto simp: updateWallet_def ensureConnected_def split: if_splits)
next
  case (Some k)
  let ?ws = "(wallets db)[k := spread_wallet (wallets db ! k) data]"
  from findIndex_Some [OF Some] have k: "k < length (wallets db)" by simp
  have "w_id (spread_wallet (wallets db ! k) data) = w_id (wallets db ! k)"
    by (simp add: spread_wallet_def)
  then have m: "map w_id ?ws = map w_id (wallets db)"
    using k by (simp add: map_update list_update_same_conv)
  have "list_all (\<lambda>w. w_id w < walletIdCounter db) ?ws
        \<longleftrightarrow> list_all (\<lambda>i. i < walletIdCounter db) (map w_id ?ws)"
    by (simp add: list_all_iff)
  also have "\<dots> \<longleftrightarrow> list_all (\<lambda>w. w_id w < walletIdCounter db) (wallets db)"
    by (simp only: m) (simp add: list_all_iff)
  finally have l: "list_all (\<lambda>w. w_id w < walletIdCounter db) ?ws
        \<longleftrightarrow> list_all (\<lambda>w. w_id w < walletIdCounter db) (wallets db)" .
  from assms(2) Some have "db' = db\<lparr>wallets := ?ws\<rparr>"
    by (auto simp: updateWallet_def ensureConnected_def split: if_splits)
  with assms(1) m l show ?thesis
    by (simp add: ids_issued_def)
qed

lemma ids_issued_recordTransaction:
  assumes "ids_issued db" "recordTransaction d db = Inr (tx, db')"
  shows "ids_issued db'"
proof -
  from recordTransaction_Inr [OF assms(2)]
  have t: "t_id tx = transactionIdCounter db"
    and db': "db' = db\<lparr>transactionIdCounter := transactionIdCounter db + 1,
                       transactions := transactions db @ [tx]\<rparr>"
    by simp_all
  from assms(1) have "\<forall>x\<in>set (transactions db). t_id x < transactionIdCounter db"
    by (simp add: ids_issued_def list_all_iff)
  then have "t_id tx \<notin> t_id ` set (transactions db)"
    "\<forall>x\<in>set (transactions db). t_id x < transactionIdCounter db + 1"
    using t by auto
  with assms(1) t show ?thesis
    by (simp add: ids_issued_def db' list_all_iff)
qed

lemma ids_issued_map_ids:
  assumes "ids_issued db" "map t_id (transactions db') = map t_id (transactions db)"
    "wallets db' = wallets db" "walletIdCounter db' = walletIdCounter db"
    "transactionIdCounter db' = transactionIdCounter db"
  shows "ids_issued db'"
proof -
  have "list_all (\<lambda>t. t_id t < transactionIdCounter db) (transactions db')
        \<longleftrightarrow> list_all (\<lambda>i. i < transactionIdCounter db) (map t_id (transactions db'))"
    by (simp add: list_all_iff)
  also have "\<dots> \<longleftrightarrow> list_all (\<lambda>t. t_id t < transactionIdCounter db) (transactions db)"
    by (simp add: assms(2) list_all_iff)
  finally show ?thesis using assms by (simp add: ids_issued_def)
qed

lemma ids_issued_updateTransaction:
  assumes "ids_issued db" "updateTransaction i data db = Inr (b, db')"
  shows "ids_issued db'"
proof -
  from assms(2) have c: "connected db"
    by (auto simp: updateTransaction_def ensureConnected_def split: if_splits)
  from updateTransaction_connected [OF c, of i data] assms(2)
  have "map t_id (transactions db') = map t_id (transactions db)"
    "wallets db' = wallets db" "walletIdCounter db' = walletIdCounter db"
    "transactionIdCounter db' = transactionIdCounter db"
    by auto
  with assms(1) show ?thesis by (rule ids_issued_map_ids)
qed

lemma ids_issued_createSwap:
  assumes "ids_issued db" "createSwap api walletId fc tc amt toAddr refund fcid tcid db = Inr (tx, db')"
  shows "ids_issued db'"
proof -
  from assms(2) obtain d where "recordTransaction d db = Inr (tx, db')"
    by (auto simp: createSwap_def createSwap_try_def split: sum.splits option.splits)
  with assms(1) show ?thesis by (rule ids_issued_recordTransaction)
qed

lemma ids_issued_loop_on_pending:
  assumes "ids_issued db" "connected db"
  shows "ids_issued (snd (updatePendingSwaps_loop api
           (filter (\<lambda>t. t_status t = pending \<and> t_transactionType t = swap) (transactions db))
           0 db))"
proof -
  from assms(1) have d: "distinct (map t_id (transactions db))"
    by (simp add: ids_issued_def)
  let ?R = "\<lambda>t. if t_status t = pending \<and> t_transactionType t = swap then
                      (case getTransactionStatus api (t_hash t) of
                         Inl e \<Rightarrow> t
                       | Inr st \<Rightarrow> t\<lparr>t_status := newStatus (s_status st)\<rparr>)
                    else t"
  let ?db' = "db\<lparr>transactions := map ?R (transactions db)\<rparr>"
  have e: "snd (updatePendingSwaps_loop api
           (filter (\<lambda>t. t_status t = pending \<and> t_transactionType t = swap) (transactions db))
           0 db) = ?db'"
    by (simp only: loop_on_pending [OF assms(2) d] snd_conv)
  have "t_id (?R t) = t_id t" for t
    by (simp split: sum.splits)
  then have "map t_id (map ?R (transactions db)) = map t_id (transactions db)"
    unfolding map_map comp_def by (rule map_cong [OF refl])
  moreover have "transactions ?db' = map ?R (transactions db)"
    by simp
  ultimately have "map t_id (transactions ?db') = map t_id (transactions db)"
    by (simp only:)
  with assms(1) have "ids_issued ?db'"
    by (rule ids_issued_map_ids) simp_all
  then show ?thesis by (simp only: e)
qed

section \<open>Facts about the cipher\<close>

lemma length_xor_bytes [simp]: "length (xor_bytes a b) = min (length a) (length b)"
  by (simp add: xor_bytes_def)

lemma xor_bytes_twice: "length b \<le> length k \<Longrightarrow> xor_bytes (xor_bytes b k) k = b"
  unfolding xor_bytes_def
  by (induction b arbitrary: k) (auto simp: neq_Nil_conv Suc_le_length_iff xor.assoc)

lemma toy_crypto_ok: "crypto_ok toy_crypto"
  by (auto simp: crypto_ok_def toy_crypto_def xor_bytes_twice)

lemma length_pbkdf2_iter:
  "(\<And>u. length (prf u) = n) \<Longrightarrow> length t = n \<Longrightarrow> length (pbkdf2_iter prf k u t) = n"
  by (induction k arbitrary: u t) simp_all

lemma length_hmac_sha256: "crypto_ok c \<Longrightarrow> length (hmac_sha256 c k m) = 32"
  by (simp add: hmac_sha256_def crypto_ok_def Let_def)

lemma length_pbkdf2_F:
  "crypto_ok c \<Longrightarrow> length (pbkdf2_F (hmac_sha256 c k) s n i) = 32"
  unfolding pbkdf2_F_def Let_def
  by (rule length_pbkdf2_iter) (simp_all add: length_hmac_sha256)

lemma length_pbkdf2Sync: "crypto_ok c \<Longrightarrow> length (pbkdf2Sync c password s n 32) = 32"
  by (simp add: pbkdf2Sync_def length_pbkdf2_F upt_rec)

lemma encryptAccount_succeeds:
  assumes "crypto_ok c" "length (iv_bytes r) = 16"
  shows "\<exists>ct. encryptAccount c r password =
            Inr \<lparr>address = account_address r, encryptedPrivateKey = toString_hex ct,
                 salt = toString_hex (salt_bytes r), iv = toString_hex (iv_bytes r)\<rparr>"
  using assms
  by (auto simp add: encryptAccount_def cipher_aes_256_cbc_def length_pbkdf2Sync Let_def)

lemma encryptAccount_Inr:
  assumes "crypto_ok c" "length (iv_bytes r) = 16"
  obtains w where "encryptAccount c r password = Inr w" "address w = account_address r"
  using encryptAccount_succeeds [OF assms, of password] by force

subsection \<open>hex\<close>

lemma hex_value_hex_digit: "n < 16 \<Longrightarrow> hex_value (hex_digit n) = Some n"
proof -
  assume "n < 16"
  then consider "n = 0" | "n = 1" | "n = 2" | "n = 3" | "n = 4" | "n = 5" | "n = 6" | "n = 7"
    | "n = 8" | "n = 9" | "n = 10" | "n = 11" | "n = 12" | "n = 13" | "n = 14" | "n = 15"
    by atomize_elim arith
  then show ?thesis
    by cases (simp_all add: hex_digit_def hex_value_def)
qed

lemma byte_nibbles: "(of_nat (16 * (unat b div 16) + unat b mod 16) :: byte) = b"
  by simp

lemma Buffer_from_hex_byte:
  "Buffer_from_hex (byte_toHex b @ rest) = b # Buffer_from_hex rest"
proof -
  have "unat b < 256" using unsigned_less [of b] by simp
  then have "unat b div 16 < 16" by simp
  then show ?thesis
    by (simp add: byte_toHex_def hex_value_hex_digit)
qed

lemma Buffer_from_hex_toString_hex: "Buffer_from_hex (toString_hex bs) = bs"
  by (induction bs) (simp_all add: toString_hex_def Buffer_from_hex_byte)

subsection \<open>utf8\<close>

lemma utf8_string_bytes: "utf8_string (utf8_bytes s) = s"
proof -
  have "char_of (unat (of_nat (of_char c) :: byte)) = c" for c
  proof -
    have "(of_char c :: nat) < 256" by (rule of_char_lt_256)
    then have "unat (of_nat (of_char c) :: byte) = of_char c"
      by (simp add: unat_of_nat)
    then show ?thesis by simp
  qed
  then show ?thesis
    by (simp add: utf8_string_def utf8_bytes_def comp_def)
qed

subsection \<open>Padding\<close>

lemma pad_length: "0 < 16 - length bs mod 16" "16 - length (bs::Buffer) mod 16 \<le> 16"
  by simp_all

lemma length_pkcs7_pad: "length (pkcs7_pad bs) mod 16 = 0"
proof -
  have "(length bs + (16 - length bs mod 16)) mod 16 = 0"
    by presburger
  then show ?thesis by (simp add: pkcs7_pad_def Let_def)
qed

lemma pkcs7_pad_not_Nil: "pkcs7_pad bs \<noteq> []"
  by (simp add: pkcs7_pad_def Let_def)

lemma unat_of_nat_small: "n \<le> 16 \<Longrightarrow> unat (of_nat n :: byte) = n"
  by (simp add: unat_of_nat)

lemma pkcs7_unpad_pad: "pkcs7_unpad (pkcs7_pad bs) = Some bs"
proof -
  let ?n = "16 - length bs mod 16"
  have n: "0 < ?n" "?n \<le> 16" by simp_all
  have u: "unat (of_nat ?n :: byte) = ?n" by (rule unat_of_nat_small) simp
  have l: "last (bs @ replicate ?n (of_nat ?n :: byte)) = of_nat ?n"
    using n(1) by simp
  have m: "length bs mod 16 < 16" by simp
  have e: "length (bs @ replicate ?n (of_nat ?n :: byte)) - ?n = length bs" by simp
  have c: "\<not> (?n = 0 \<or> 16 < ?n \<or> length (bs @ replicate ?n (of_nat ?n :: byte)) < ?n)"
    using m by (simp del: One_nat_def) arith
  have ne: "bs @ replicate ?n (of_nat ?n :: byte) \<noteq> []" using n(1) by simp
  show ?thesis
    unfolding pkcs7_pad_def pkcs7_unpad_def Let_def l u e
    using c ne by (simp del: length_append length_replicate)
qed

lemma pad_arith:
  fixes n l :: nat
  assumes "0 < n" "n \<le> 16" "n \<le> l" "l mod 16 = 0"
  shows "16 - (l - n) mod 16 = n"
proof -
  from assms(4) have "16 dvd l" by (simp add: mod_eq_0_iff_dvd)
  then obtain q where q: "l = 16 * q" by (elim dvdE)
  with assms have "0 < q" by (cases q) auto
  then obtain q' where q': "q = Suc q'" by (cases q) auto
  have "l - n = 16 * q' + (16 - n)" using q q' assms(2) by simp
  then have "(l - n) mod 16 = (16 - n) mod 16" by simp
  with assms(1,2) show ?thesis by (cases "n = 16") simp_all
qed

lemma pkcs7_pad_unpad:
  assumes "pkcs7_unpad bs = Some p" "length bs mod 16 = 0"
  shows "pkcs7_pad p = bs"
proof -
  let ?n = "unat (last bs)"
  from assms(1) have ne: "bs \<noteq> []" and n: "0 < ?n" "?n \<le> 16" "?n \<le> length bs"
    and d: "drop (length bs - ?n) bs = replicate ?n (last bs)"
    and p: "p = take (length bs - ?n) bs"
    by (auto simp: pkcs7_unpad_def Let_def split: if_splits)
  have lp: "length p = length bs - ?n" using p by simp
  have "16 - (length bs - ?n) mod 16 = ?n"
    using n assms(2) by (rule pad_arith)
  then have k: "16 - length p mod 16 = ?n" by (simp add: lp)
  have "pkcs7_pad p = p @ replicate ?n (of_nat ?n)"
    by (simp add: pkcs7_pad_def Let_def k)
  also have "\<dots> = take (length bs - ?n) bs @ drop (length bs - ?n) bs"
    by (simp add: p d)
  finally show ?thesis by simp
qed

subsection \<open>Blocks\<close>

lemma concat_chunks: "concat (chunks bs) = bs"
proof (induction bs rule: chunks.induct)
  case (1 bs)
  show ?case
  proof (cases "bs = []")
    case True
    then show ?thesis by (simp add: chunks.simps)
  next
    case False
    with 1 show ?thesis by (subst chunks.simps) simp
  qed
qed

lemma chunks_blocks:
  "length bs mod 16 = 0 \<Longrightarrow> list_all (\<lambda>b. length b = 16) (chunks bs)"
proof (induction bs rule: chunks.induct)
  case (1 bs)
  show ?case
  proof (cases "bs = []")
    case True
    then show ?thesis by (simp add: chunks.simps)
  next
    case False
    then have "0 < length bs" by simp
    with "1.prems" have l: "16 \<le> length bs"
      by (cases "length bs < 16") simp_all
    have "(length bs - 16) mod 16 = 0"
      using "1.prems" l by presburger
    then have "length (drop 16 bs) mod 16 = 0" by simp
    with "1.IH" [OF False] have "list_all (\<lambda>b. length b = 16) (chunks (drop 16 bs))" .
    with False l show ?thesis by (subst chunks.simps) simp
  qed
qed

lemma chunks_concat:
  "list_all (\<lambda>b. length b = 16) bss \<Longrightarrow> chunks (concat bss) = bss"
proof (induction bss)
  case Nil
  then show ?case by (simp add: chunks.simps)
next
  case (Cons b bss)
  then have b: "length b = 16" and ne: "b \<noteq> []" by auto
  from Cons have ih: "chunks (concat bss) = bss" by simp
  show ?case
    using b ne ih by (subst chunks.simps) simp
qed

lemma chunks_Nil_iff: "chunks bs = [] \<longleftrightarrow> bs = []"
  by (subst chunks.simps) simp

subsection \<open>Chaining\<close>

lemma cbc_decrypt_encrypt:
  assumes "\<And>b. length b = 16 \<Longrightarrow> length (E b) = 16 \<and> D (E b) = b"
    and "length prev = 16" "list_all (\<lambda>b. length b = 16) ps"
  shows "cbc_decrypt D prev (cbc_encrypt E prev ps) = ps
       \<and> list_all (\<lambda>b. length b = 16) (cbc_encrypt E prev ps)"
  using assms(2,3)
proof (induction ps arbitrary: prev)
  case Nil
  then show ?case by simp
next
  case (Cons p ps)
  then have p: "length p = 16" and ps: "list_all (\<lambda>b. length b = 16) ps" by simp_all
  have x: "length (xor_bytes p prev) = 16" using p Cons.prems(1) by simp
  from assms(1) [OF x] have e: "length (E (xor_bytes p prev)) = 16"
    "D (E (xor_bytes p prev)) = xor_bytes p prev" by simp_all
  have "xor_bytes (xor_bytes p prev) prev = p"
    by (rule xor_bytes_twice) (simp add: p Cons.prems(1))
  with Cons.IH [OF e(1) ps] e show ?case by simp
qed

lemma cbc_encrypt_decrypt:
  assumes "\<And>b. length b = 16 \<Longrightarrow> length (D b) = 16 \<and> E (D b) = b"
    and "length prev = 16" "list_all (\<lambda>b. length b = 16) cs"
  shows "cbc_encrypt E prev (cbc_decrypt D prev cs) = cs
       \<and> list_all (\<lambda>b. length b = 16) (cbc_decrypt D prev cs)"
  using assms(2,3)
proof (induction cs arbitrary: prev)
  case Nil
  then show ?case by simp
next
  case (Cons x cs)
  then have x: "length x = 16" and cs: "list_all (\<lambda>b. length b = 16) cs" by simp_all
  from assms(1) [OF x] have d: "length (D x) = 16" "E (D x) = x" by simp_all
  have "xor_bytes (xor_bytes (D x) prev) prev = D x"
    by (rule xor_bytes_twice) (simp add: d Cons.prems(1))
  with Cons.IH [OF x cs] d Cons.prems(1) show ?case by simp
qed

lemma length_concat_blocks:
  "list_all (\<lambda>b. length b = 16) bss \<Longrightarrow> length (concat bss) = 16 * length bss"
  by (induction bss) simp_all

lemma blocks_concat_shape:
  assumes "list_all (\<lambda>b. length b = 16) bss" "bss \<noteq> []"
  shows "concat bss \<noteq> [] \<and> length (concat bss) mod 16 = 0"
proof -
  from assms obtain b rest where "bss = b # rest" "length b = 16"
    by (cases bss) auto
  then have "concat bss \<noteq> []" by auto
  moreover have "length (concat bss) mod 16 = 0"
    using length_concat_blocks [OF assms(1)] by simp
  ultimately show ?thesis by simp
qed

lemma cbc_encrypt_Nil_iff [simp]: "cbc_encrypt E prev ps = [] \<longleftrightarrow> ps = []"
  by (cases ps) simp_all

lemma length_cbc_encrypt [simp]: "length (cbc_encrypt E prev ps) = length ps"
  by (induction ps arbitrary: prev) simp_all

lemma length_cbc_decrypt [simp]: "length (cbc_decrypt D prev cs) = length cs"
  by (induction cs arbitrary: prev) simp_all

subsection \<open>Cipher and decipher\<close>

lemma crypto_ok_blocks:
  assumes "crypto_ok c" "length key = 32" "length b = 16"
  shows "length (aes256_encrypt c key b) = 16 \<and> aes256_decrypt c key (aes256_encrypt c key b) = b"
    "length (aes256_decrypt c key b) = 16 \<and> aes256_encrypt c key (aes256_decrypt c key b) = b"
  using assms by (simp_all add: crypto_ok_def)

lemma decipher_cipher:
  assumes "crypto_ok c" "length key = 32" "length ivec = 16"
  shows "\<exists>ct. cipher_aes_256_cbc c key ivec data = Inr ct
            \<and> decipher_aes_256_cbc c key ivec ct = Inr data"
proof -
  let ?ps = "chunks (pkcs7_pad data)"
  let ?cs = "cbc_encrypt (aes256_encrypt c key) ivec ?ps"
  have ps: "list_all (\<lambda>b. length b = 16) ?ps"
    by (rule chunks_blocks) (rule length_pkcs7_pad)
  have rt: "cbc_decrypt (aes256_decrypt c key) ivec ?cs = ?ps"
    and cs: "list_all (\<lambda>b. length b = 16) ?cs"
    using cbc_decrypt_encrypt [of "aes256_encrypt c key" "aes256_decrypt c key" ivec ?ps]
      crypto_ok_blocks(1) [OF assms(1,2)] assms(3) ps by blast+
  have "?ps \<noteq> []" by (simp add: chunks_Nil_iff pkcs7_pad_not_Nil)
  then have "?cs \<noteq> []" by simp
  with cs have ne: "concat ?cs \<noteq> []" and m: "length (concat ?cs) mod 16 = 0"
    using blocks_concat_shape by blast+
  have ch: "chunks (concat ?cs) = ?cs" using cs by (rule chunks_concat)
  have "cipher_aes_256_cbc c key ivec data = Inr (concat ?cs)"
    using assms(2,3) by (simp add: cipher_aes_256_cbc_def)
  moreover have "decipher_aes_256_cbc c key ivec (concat ?cs) = Inr data"
    using assms(2,3) ne m
    by (simp add: decipher_aes_256_cbc_def ch rt concat_chunks pkcs7_unpad_pad)
  ultimately show ?thesis by blast
qed

lemma cipher_shape:
  assumes "crypto_ok c" "length key = 32" "length ivec = 16"
    "cipher_aes_256_cbc c key ivec data = Inr ct"
  shows "ct \<noteq> [] \<and> length ct mod 16 = 0"
proof -
  let ?ps = "chunks (pkcs7_pad data)"
  let ?cs = "cbc_encrypt (aes256_encrypt c key) ivec ?ps"
  have ps: "list_all (\<lambda>b. length b = 16) ?ps"
    by (rule chunks_blocks) (rule length_pkcs7_pad)
  have cs: "list_all (\<lambda>b. length b = 16) ?cs"
    using cbc_decrypt_encrypt [of "aes256_encrypt c key" "aes256_decrypt c key" ivec ?ps]
      crypto_ok_blocks(1) [OF assms(1,2)] assms(3) ps by blast
  have "?ps \<noteq> []" by (simp add: chunks_Nil_iff pkcs7_pad_not_Nil)
  then have "?cs \<noteq> []" by simp
  with cs have "concat ?cs \<noteq> []" "length (concat ?cs) mod 16 = 0"
    using blocks_concat_shape by blast+
  moreover have "ct = concat ?cs"
    using assms(2,3,4) by (simp add: cipher_aes_256_cbc_def)
  ultimately show ?thesis by simp
qed

lemma cipher_decipher:
  assumes "crypto_ok c" "length key = 32" "length ivec = 16" "ct \<noteq> []" "length ct mod 16 = 0"
  shows "decipher_aes_256_cbc c key ivec ct = Inl (Error ''bad decrypt'')
       \<or> (\<exists>plain. decipher_aes_256_cbc c key ivec ct = Inr plain
                \<and> cipher_aes_256_cbc c key ivec plain = Inr ct)"
proof -
  let ?cs = "chunks ct"
  let ?ps = "cbc_decrypt (aes256_decrypt c key) ivec ?cs"
  have cs: "list_all (\<lambda>b. length b = 16) ?cs"
    using assms(5) by (rule chunks_blocks)
  have rt: "cbc_encrypt (aes256_encrypt c key) ivec ?ps = ?cs"
    and ps: "list_all (\<lambda>b. length b = 16) ?ps"
    using cbc_encrypt_decrypt [of "aes256_decrypt c key" "aes256_encrypt c key" ivec ?cs]
      crypto_ok_blocks(2) [OF assms(1,2)] assms(3) cs by blast+
  have m: "length (concat ?ps) mod 16 = 0"
    using length_concat_blocks [OF ps] by simp
  show ?thesis
  proof (cases "pkcs7_unpad (concat ?ps)")
    case None
    with assms(2-5) show ?thesis by (simp add: decipher_aes_256_cbc_def)
  next
    case (Some plain)
    then have "pkcs7_pad plain = concat ?ps" using m by (rule pkcs7_pad_unpad)
    then have "chunks (pkcs7_pad plain) = ?ps" using ps by (simp add: chunks_concat)
    then have "cipher_aes_256_cbc c key ivec plain = Inr ct"
      using assms(2,3) by (simp add: cipher_aes_256_cbc_def rt concat_chunks)
    moreover have "decipher_aes_256_cbc c key ivec ct = Inr plain"
      using assms(2-5) Some by (simp add: decipher_aes_256_cbc_def)
    ultimately show ?thesis by blast
  qed
qed

subsection \<open>Generating and decrypting\<close>

lemma encryptAccount_cipher:
  assumes "crypto_ok c" "length (iv_bytes r) = 16"
  shows "\<exists>ct. cipher_aes_256_cbc c (pbkdf2Sync c password (toString_hex (salt_bytes r)) 100000 32)
                 (iv_bytes r) (utf8_bytes (account_privateKey r)) = Inr ct
            \<and> encryptAccount c r password =
                Inr \<lparr>address = account_address r, encryptedPrivateKey = toString_hex ct,
                     salt = toString_hex (salt_bytes r), iv = toString_hex (iv_bytes r)\<rparr>"
proof -
  let ?key = "pbkdf2Sync c password (toString_hex (salt_bytes r)) 100000 32"
  have k: "length ?key = 32" using assms(1) by (rule length_pbkdf2Sync)
  from decipher_cipher [OF assms(1) k assms(2)]
  obtain ct where "cipher_aes_256_cbc c ?key (iv_bytes r) (utf8_bytes (account_privateKey r)) = Inr ct"
    by blast
  then show ?thesis by (simp add: encryptAccount_def Let_def)
qed

lemma decryptPrivateKey_stored:
  "decryptPrivateKey c
     \<lparr>address = a, encryptedPrivateKey = toString_hex ct, salt = s, iv = toString_hex ivec\<rparr> password
   = (case decipher_aes_256_cbc c (pbkdf2Sync c password s 100000 32) ivec ct of
        Inl e \<Rightarrow> Inl e
      | Inr plain \<Rightarrow> Inr (utf8_string plain))"
  by (simp add: decryptPrivateKey_def Let_def Buffer_from_hex_toString_hex)

lemma decrypt_same_key:
  assumes "crypto_ok c" "length (iv_bytes r) = 16" "encryptAccount c r p1 = Inr w"
    and "pbkdf2Sync c p2 (salt w) 100000 32 = pbkdf2Sync c p1 (salt w) 100000 32"
  shows "decryptPrivateKey c w p2 = Inr (account_privateKey r)"
proof -
  let ?s = "toString_hex (salt_bytes r)"
  let ?key = "pbkdf2Sync c p1 ?s 100000 32"
  from encryptAccount_cipher [OF assms(1,2), of p1] assms(3)
  obtain ct where ct: "cipher_aes_256_cbc c ?key (iv_bytes r) (utf8_bytes (account_privateKey r)) = Inr ct"
    and w: "w = \<lparr>address = account_address r, encryptedPrivateKey = toString_hex ct,
                 salt = ?s, iv = toString_hex (iv_bytes r)\<rparr>"
    by auto
  have k: "length ?key = 32" using assms(1) by (rule length_pbkdf2Sync)
  from decipher_cipher [OF assms(1) k assms(2), of "utf8_bytes (account_privateKey r)"] ct
  have d: "decipher_aes_256_cbc c ?key (iv_bytes r) ct = Inr (utf8_bytes (account_privateKey r))"
    by simp
  from assms(4) have "pbkdf2Sync c p2 ?s 100000 32 = ?key" by (simp add: w)
  then show ?thesis
    unfolding w decryptPrivateKey_stored by (simp add: d utf8_string_bytes)
qed

lemma decrypt_bad_padding:
  assumes "crypto_ok c" "length (iv_bytes r) = 16" "encryptAccount c r p1 = Inr w"
    and "pkcs7_unpad
           (concat (cbc_decrypt (aes256_decrypt c (pbkdf2Sync c p2 (salt w) 100000 32))
                      (Buffer_from_hex (iv w))
                      (chunks (Buffer_from_hex (encryptedPrivateKey w))))) = None"
  shows "decryptPrivateKey c w p2 = Inl (Error ''bad decrypt'')"
proof -
  let ?s = "toString_hex (salt_bytes r)"
  let ?key = "pbkdf2Sync c p1 ?s 100000 32"
  let ?key2 = "pbkdf2Sync c p2 ?s 100000 32"
  from encryptAccount_cipher [OF assms(1,2), of p1] assms(3)
  obtain ct where ct: "cipher_aes_256_cbc c ?key (iv_bytes r) (utf8_bytes (account_privateKey r)) = Inr ct"
    and w: "w = \<lparr>address = account_address r, encryptedPrivateKey = toString_hex ct,
                 salt = ?s, iv = toString_hex (iv_bytes r)\<rparr>"
    by auto
  have k: "length ?key = 32" and k2: "length ?key2 = 32"
    using assms(1) by (rule length_pbkdf2Sync)+
  from cipher_shape [OF assms(1) k assms(2) ct]
  have sh: "ct \<noteq> []" "length ct mod 16 = 0" by simp_all
  from assms(4)
  have "pkcs7_unpad (concat (cbc_decrypt (aes256_decrypt c ?key2) (iv_bytes r) (chunks ct))) = None"
    by (simp add: w Buffer_from_hex_toString_hex)
  then have "decipher_aes_256_cbc c ?key2 (iv_bytes r) ct = Inl (Error ''bad decrypt'')"
    using k2 assms(2) sh by (simp add: decipher_aes_256_cbc_def)
  then show ?thesis
    unfolding w decryptPrivateKey_stored by simp
qed

subsection \<open>Passwords with the same key\<close>

lemma pbkdf2Sync_key_block:
  assumes "hmac_key_block c (utf8_bytes p1) = hmac_key_block c (utf8_bytes p2)"
  shows "pbkdf2Sync c p1 s n k = pbkdf2Sync c p2 s n k"
proof -
  have "hmac_sha256 c (utf8_bytes p1) = hmac_sha256 c (utf8_bytes p2)"
    by (rule ext) (simp add: hmac_sha256_def assms)
  then show ?thesis by (simp add: pbkdf2Sync_def)
qed

lemma hmac_key_block_NUL:
  assumes "length k < 64"
  shows "hmac_key_block c (k @ [0]) = hmac_key_block c k"
proof -
  from assms have "64 - length k = Suc (64 - Suc (length k))" by simp
  then have "replicate (64 - length k) (0::byte) = 0 # replicate (64 - Suc (length k)) 0"
    by (simp only: replicate_Suc)
  with assms show ?thesis by (simp add: hmac_key_block_def)
qed

lemma utf8_bytes_NUL: "utf8_bytes (p @ [CHR 0x00]) = utf8_bytes p @ [0]"
  by (simp add: utf8_bytes_def)

lemma pbkdf2Sync_trailing_NUL:
  assumes "length p < 64"
  shows "pbkdf2Sync c (p @ [CHR 0x00]) s n k = pbkdf2Sync c p s n k"
proof (rule pbkdf2Sync_key_block)
  have "length (utf8_bytes p) < 64" using assms by (simp add: utf8_bytes_def)
  then show "hmac_key_block c (utf8_bytes (p @ [CHR 0x00])) = hmac_key_block c (utf8_bytes p)"
    unfolding utf8_bytes_NUL by (rule hmac_key_block_NUL)
qed

section \<open>Facts about the stand-in primitives\<close>

subsection \<open>The derived key\<close>

text \<open>
  When the pseudo-random function has reached a fixed point, the remaining rounds of PBKDF2
  add it an even or an odd number of times.
\<close>

lemma pbkdf2_iter_fixed:
  assumes "prf k = k" "length t = length k"
  shows "pbkdf2_iter prf n k t = (if even n then t else xor_bytes t k)"
  using assms(2)
proof (induction n arbitrary: t)
  case 0
  then show ?case by simp
next
  case (Suc n)
  have "length (xor_bytes t k) = length k" using Suc.prems by simp
  from Suc.IH [OF this] Suc.prems show ?case
    by (simp add: assms(1) xor_bytes_twice)
qed

lemma xor_bytes_replicate:
  "xor_bytes (replicate n a) (replicate n b) = replicate n (a XOR b)"
  by (simp add: xor_bytes_def zip_replicate)

lemma toy_hmac:
  "hmac_sha256 toy_crypto key text =
     replicate 32
       (sum_list (map (\<lambda>b. b XOR 0x5c) (hmac_key_block toy_crypto key))
        + 32 * (sum_list (map (\<lambda>b. b XOR 0x36) (hmac_key_block toy_crypto key)) + sum_list text))"
  by (simp add: hmac_sha256_def toy_crypto_def Let_def sum_list_replicate distrib_left)

lemma toy_hmac_replicate:
  "hmac_sha256 toy_crypto (utf8_bytes p) (replicate 32 x) = replicate 32 (toy_kappa p)"
proof -
  have "(32::byte) * (32 * x) = 0"
  proof -
    have "(32::byte) * (32 * x) = (32 * 32) * x" by (simp only: mult.assoc)
    also have "(32 * 32 :: byte) = 0" by simp
    finally show ?thesis by simp
  qed
  then show ?thesis
    by (simp add: toy_hmac toy_kappa_def Let_def distrib_left sum_list_replicate)
qed

lemma toy_pbkdf2Sync:
  "pbkdf2Sync toy_crypto p s 100000 32 =
     replicate 32 ((toy_kappa p + 32 * (sum_list (utf8_bytes s) + 1)) XOR toy_kappa p)"
proof -
  let ?h = "hmac_sha256 toy_crypto (utf8_bytes p)"
  let ?k = "replicate 32 (toy_kappa p)"
  let ?a = "toy_kappa p + 32 * (sum_list (utf8_bytes s) + 1)"
  have u1: "?h (utf8_bytes s @ be32 1) = replicate 32 ?a"
    by (simp add: toy_hmac toy_kappa_def Let_def be32_def distrib_left add.assoc)
  have k: "?h (replicate 32 ?a) = ?k" by (rule toy_hmac_replicate)
  have kk: "?h ?k = ?k" by (rule toy_hmac_replicate)
  have n: "(100000::nat) - 1 = Suc 99998" by simp
  have "pbkdf2_F ?h (utf8_bytes s) 100000 1 =
          pbkdf2_iter ?h (Suc 99998) (replicate 32 ?a) (replicate 32 ?a)"
    unfolding pbkdf2_F_def Let_def u1 n ..
  also have "\<dots> = pbkdf2_iter ?h 99998 ?k (xor_bytes (replicate 32 ?a) ?k)"
    by (simp only: pbkdf2_iter.simps k)
  also have "\<dots> = xor_bytes (replicate 32 ?a) ?k"
    using pbkdf2_iter_fixed [of ?h ?k "xor_bytes (replicate 32 ?a) ?k" 99998, OF kk]
    by simp
  also have "\<dots> = replicate 32 (?a XOR toy_kappa p)"
    by (rule xor_bytes_replicate)
  finally have f: "pbkdf2_F ?h (utf8_bytes s) 100000 1 = replicate 32 (?a XOR toy_kappa p)" .
  have "[1 ..< Suc ((32 + 31) div 32)] = [1::nat]" by (simp add: upt_rec)
  then have "pbkdf2Sync toy_crypto p s 100000 32 =
               take 32 (pbkdf2_F ?h (utf8_bytes s) 100000 1)"
    unfolding pbkdf2Sync_def by (simp only: list.map concat.simps append_Nil2)
  then show ?thesis
    by (simp only: f) simp
qed

subsection \<open>Decryption under another key\<close>

text \<open>
  Under the stand-in cipher, decryption under another key is the padded plaintext with every
  byte changed by the XOR of the two key bytes; the padding check then fails whenever the
  changed last byte exceeds 16.
\<close>

lemma xor_bytes_replicate_map:
  "xor_bytes b (replicate n x) = map (\<lambda>v. v XOR x) (take n b)"
  unfolding xor_bytes_def
proof (induction b arbitrary: n)
  case Nil
  then show ?case by simp
next
  case (Cons a b)
  then show ?case by (cases n) simp_all
qed

lemma xor_bytes_swap:
  "xor_bytes (xor_bytes a b) c = xor_bytes (xor_bytes a c) b"
  unfolding xor_bytes_def
proof (induction a arbitrary: b c)
  case Nil
  then show ?case by simp
next
  case (Cons x a)
  show ?case
  proof (cases b)
    case Nil
    then show ?thesis by (cases c) simp_all
  next
    case b: (Cons y b')
    show ?thesis
    proof (cases c)
      case Nil
      then show ?thesis by simp
    next
      case c: (Cons z c')
      show ?thesis
        using Cons.IH [of b' c'] by (simp add: b c ac_simps)
    qed
  qed
qed

lemma cbc_decrypt_xor:
  "cbc_decrypt (\<lambda>b. xor_bytes (D b) d) prev cs =
     map (\<lambda>p. xor_bytes p d) (cbc_decrypt D prev cs)"
proof (induction cs arbitrary: prev)
  case Nil
  then show ?case by simp
next
  case (Cons c cs)
  have "xor_bytes (xor_bytes (D c) d) prev = xor_bytes (xor_bytes (D c) prev) d"
    by (rule xor_bytes_swap)
  with Cons show ?case by simp
qed

lemma toy_decrypt_other:
  "aes256_decrypt toy_crypto (replicate 32 y) =
     (\<lambda>b. xor_bytes (aes256_decrypt toy_crypto (replicate 32 x) b) (replicate 16 (x XOR y)))"
proof (rule ext)
  fix b :: Buffer
  have "(v XOR x) XOR (x XOR y) = v XOR y" for v :: byte
    by (simp add: xor.assoc [symmetric]) (simp add: xor.assoc)
  then show "aes256_decrypt toy_crypto (replicate 32 y) b =
        xor_bytes (aes256_decrypt toy_crypto (replicate 32 x) b) (replicate 16 (x XOR y))"
    by (simp add: toy_crypto_def xor_bytes_replicate_map take_map)
qed

lemma pkcs7_unpad_xor:
  assumes "16 < unat ((of_nat (16 - length data mod 16) :: byte) XOR d)"
  shows "pkcs7_unpad (map (\<lambda>b. b XOR d) (pkcs7_pad data)) = None"
proof -
  let ?n = "16 - length data mod 16"
  have n: "0 < ?n" by simp
  have "last (map (\<lambda>b. b XOR d) (pkcs7_pad data)) = (of_nat ?n :: byte) XOR d"
    using n by (simp add: pkcs7_pad_def Let_def last_map)
  with assms show ?thesis
    by (simp add: pkcs7_unpad_def Let_def pkcs7_pad_not_Nil)
qed

lemma toy_other_key:
  assumes "length ivec = 16"
    and "16 < unat ((of_nat (16 - length data mod 16) :: byte) XOR (x XOR y))"
  shows "pkcs7_unpad (concat (cbc_decrypt (aes256_decrypt toy_crypto (replicate 32 y)) ivec
           (chunks (concat (cbc_encrypt (aes256_encrypt toy_crypto (replicate 32 x)) ivec
              (chunks (pkcs7_pad data))))))) = None"
proof -
  let ?ps = "chunks (pkcs7_pad data)"
  let ?E = "aes256_encrypt toy_crypto (replicate 32 x)"
  let ?D = "aes256_decrypt toy_crypto (replicate 32 x)"
  let ?d = "replicate 16 (x XOR y)"
  have k: "length (replicate 32 x) = 32" by simp
  have ps: "list_all (\<lambda>b. length b = 16) ?ps"
    by (rule chunks_blocks) (rule length_pkcs7_pad)
  have rt: "cbc_decrypt ?D ivec (cbc_encrypt ?E ivec ?ps) = ?ps"
    and cs: "list_all (\<lambda>b. length b = 16) (cbc_encrypt ?E ivec ?ps)"
    using cbc_decrypt_encrypt [of ?E ?D ivec ?ps]
      crypto_ok_blocks(1) [OF toy_crypto_ok k] assms(1) ps by blast+
  have e: "map (\<lambda>p. xor_bytes p ?d) ?ps = map (map (\<lambda>b. b XOR (x XOR y))) ?ps"
  proof (rule map_cong [OF refl])
    fix p assume "p \<in> set ?ps"
    with ps have "length p = 16" by (simp add: list_all_iff)
    then show "xor_bytes p ?d = map (\<lambda>b. b XOR (x XOR y)) p"
      by (simp add: xor_bytes_replicate_map)
  qed
  have "cbc_decrypt (aes256_decrypt toy_crypto (replicate 32 y)) ivec
          (chunks (concat (cbc_encrypt ?E ivec ?ps)))
        = map (\<lambda>p. xor_bytes p ?d) ?ps"
    by (subst toy_decrypt_other [of y x]) (simp only: cbc_decrypt_xor chunks_concat [OF cs] rt)
  then have "concat (cbc_decrypt (aes256_decrypt toy_crypto (replicate 32 y)) ivec
          (chunks (concat (cbc_encrypt ?E ivec ?ps))))
        = map (\<lambda>b. b XOR (x XOR y)) (pkcs7_pad data)"
    by (simp only: e map_concat [symmetric] concat_chunks)
  then show ?thesis
    by (simp only: pkcs7_unpad_xor [OF assms(2)])
qed

subsection \<open>Two passwords\<close>

lemma toy_kappa_MySecurePassword: "toy_kappa ''MySecurePassword123!'' = 47"
  by (simp add: toy_kappa_def hmac_key_block_def utf8_bytes_def Let_def sum_list_replicate)

lemma toy_kappa_WrongPassword: "toy_kappa ''WrongPassword'' = 152"
  by (simp add: toy_kappa_def hmac_key_block_def utf8_bytes_def Let_def sum_list_replicate)

lemma example_account_salt:
  "toString_hex (salt_bytes example_account) = ''9f86d081884c7d659a2feaa0c55ad015''"
  by (simp add: example_account_def toString_hex_def byte_toHex_def hex_digit_def)

lemma example_account_keys:
  "pbkdf2Sync toy_crypto ''MySecurePassword123!'' (toString_hex (salt_bytes example_account)) 100000 32
     = replicate 32 96"
  "pbkdf2Sync toy_crypto ''WrongPassword'' (toString_hex (salt_bytes example_account)) 100000 32
     = replicate 32 32"
  by (simp_all add: toy_pbkdf2Sync toy_kappa_MySecurePassword toy_kappa_WrongPassword
      example_account_salt utf8_bytes_def)

section \<open>Tron address validator\<close>

text \<open>
  C8. The Tron address validator returns true for every 34-character string of Base58-alphabet
  characters whose first character is \<open>T\<close>, in particular for
  \<open>TRjE1H8dxypKM1NZRdysbs9wo7huR4bdNz\<close>, and returns false for every string of length 5, in
  particular for \<open>AB123\<close>.
\<close>

theorem validateTronAddress_spec:
  "(\<forall>a. length a = 34 \<and> list_all (\<lambda>c. c \<in> set base58Chars) a \<and> hd a = CHR ''T''
        \<longrightarrow> validateTronAddress a)
   \<and> validateTronAddress ''TRjE1H8dxypKM1NZRdysbs9wo7huR4bdNz''
   \<and> (\<forall>a. length a = 5 \<longrightarrow> \<not> validateTronAddress a)
   \<and> \<not> validateTronAddress ''AB123''"
proof (intro conjI allI impI)
  fix a :: string
  assume h: "length a = 34 \<and> list_all (\<lambda>c. c \<in> set base58Chars) a \<and> hd a = CHR ''T''"
  then obtain x xs where a: "a = x # xs" by (cases a) auto
  with h show "validateTronAddress a"
    by (auto simp add: validateTronAddress_def startsWith_def base58Chars_test_def)
next
  show "validateTronAddress ''TRjE1H8dxypKM1NZRdysbs9wo7huR4bdNz''"
    by (simp add: validateTronAddress_def startsWith_def base58Chars_test_def base58Chars_def)
next
  fix a :: string
  assume "length a = 5"
  then show "\<not> validateTronAddress a"
    by (simp add: validateTronAddress_def)
next
  show "\<not> validateTronAddress ''AB123''"
    by (simp add: validateTronAddress_def)
qed

theorem validateTronAddress_spec_witness:
  "validateTronAddress (CHR ''T'' # replicate 33 CHR ''1'')
   \<and> \<not> validateTronAddress ''12345''"
proof -
  have a: "length (CHR ''T'' # replicate 33 CHR ''1'') = 34
        \<and> list_all (\<lambda>c. c \<in> set base58Chars) (CHR ''T'' # replicate 33 CHR ''1'')
        \<and> hd (CHR ''T'' # replicate 33 CHR ''1'') = CHR ''T''"
    by (simp add: base58Chars_def list_all_iff)
  have b: "length ''12345'' = 5" by simp
  from validateTronAddress_spec a b show ?thesis by blast
qed

section \<open>Deleting a wallet and its transactions\<close>

text \<open>
  C3. For every stored wallet record \<open>w\<close>, \<open>deleteWallet(w.id)\<close> removes every transaction
  record whose \<open>walletId\<close> equals \<open>w.id\<close>, and a subsequent query for the transactions of that
  wallet returns the empty collection, in the in-memory store as in the relational one.

  The in-memory store does not do this. Below, a wallet is created in a new connected store,
  one transaction is recorded for it, the wallet is deleted (\<open>deleteWallet\<close> returns true), and
  the query for the wallet's transactions still returns the transaction.
\<close>

theorem MockDatabase_deleteWallet_keeps_transactions:
  "createWallet ''alice'' (example_walletData ''1AbC'') (connect new_MockDatabase)
     = Inr (example_wallet 1 ''alice'' ''1AbC'',
            \<lparr>wallets = [example_wallet 1 ''alice'' ''1AbC''], transactions = [],
             walletIdCounter = 2, transactionIdCounter = 1, connected = True\<rparr>)
   \<and> recordTransaction (example_transactionData 1 send completed ''0xh1'')
        \<lparr>wallets = [example_wallet 1 ''alice'' ''1AbC''], transactions = [],
         walletIdCounter = 2, transactionIdCounter = 1, connected = True\<rparr>
     = Inr (example_transaction 1 send completed ''0xh1'',
            \<lparr>wallets = [example_wallet 1 ''alice'' ''1AbC''],
             transactions = [example_transaction 1 send completed ''0xh1''],
             walletIdCounter = 2, transactionIdCounter = 2, connected = True\<rparr>)
   \<and> t_walletId (example_transaction 1 send completed ''0xh1'') = 1
   \<and> deleteWallet 1
        \<lparr>wallets = [example_wallet 1 ''alice'' ''1AbC''],
         transactions = [example_transaction 1 send completed ''0xh1''],
         walletIdCounter = 2, transactionIdCounter = 2, connected = True\<rparr>
     = Inr (True,
            \<lparr>wallets = [], transactions = [example_transaction 1 send completed ''0xh1''],
             walletIdCounter = 2, transactionIdCounter = 2, connected = True\<rparr>)
   \<and> getTransactionsByWallet 1
        \<lparr>wallets = [], transactions = [example_transaction 1 send completed ''0xh1''],
         walletIdCounter = 2, transactionIdCounter = 2, connected = True\<rparr>
     = Inr [example_transaction 1 send completed ''0xh1'']"
  by (simp add: createWallet_def recordTransaction_def deleteWallet_def
      getTransactionsByWallet_def ensureConnected_def connect_def new_MockDatabase_def
      example_walletData_def example_wallet_def example_transactionData_def
      example_transaction_def Let_def)

section \<open>Chain id of Ethereum wallets\<close>

text \<open>
  C7. Creating an Ethereum-compatible wallet with no explicit \<open>evmChainId\<close> stores a record
  whose chain id is 1; creating one with chain id 137 stores exactly 137; and for every owner
  the chain-filtered query with chain id 137 returns the second wallet while the query with
  chain id 1 does not return it (it returns the first).

  The first wallet is made by \<open>generateAndStoreWallets(owner, password)\<close> on a connected
  store. The second is made in either of the two ways the service has, on the store that the
  first call left: by \<open>generateEthereumWallet(owner, password, 137)\<close>, and by
  \<open>generateAndStoreWallets(owner, password, 137)\<close>. All three calls return, for primitives that
  satisfy \<^const>\<open>crypto_ok\<close>, 16-byte initialisation vectors and generated Tron addresses of
  valid format; in both ways the stored Ethereum record has chain id 137, the query for 137
  returns it and not the first wallet, and the query for 1 returns the first wallet and not
  the second.
\<close>

theorem evmChainId_default_and_chain_filter:
  assumes c: "crypto_ok c" and db: "connected db"
    and iv: "length (iv_bytes (eth_drawn rs)) = 16" "length (iv_bytes (btc_drawn rs)) = 16"
      "length (iv_bytes (sol_drawn rs)) = 16" "length (iv_bytes (tron_drawn rs)) = 16"
      "length (iv_bytes r) = 16"
    and tron: "validateTronAddress (account_address (tron_drawn rs))"
    and iv': "length (iv_bytes (eth_drawn rs')) = 16" "length (iv_bytes (btc_drawn rs')) = 16"
      "length (iv_bytes (sol_drawn rs')) = 16" "length (iv_bytes (tron_drawn rs')) = 16"
    and tron': "validateTronAddress (account_address (tron_drawn rs'))"
  shows "\<exists>data db1 w1 w2 db2 ws137 ws1 data' db3 w3 vs137 vs1.
      generateAndStoreWallets c rs owner password None db = (Inr data, db1)
    \<and> dw_ethereum_chainId data = Some 1
    \<and> length (wallets db1) = length (wallets db) + 4
    \<and> w1 = wallets db1 ! length (wallets db)
    \<and> w_walletType w1 = ethereum \<and> w_userId w1 = owner
    \<and> w_address w1 = address (dw_ethereum data) \<and> w_chainId w1 = Some 1
    \<and> generateEthereumWallet c r owner password 137 db1 = Inr (w2, db2)
    \<and> w2 \<in> set (wallets db2) \<and> w_walletType w2 = ethereum \<and> w_chainId w2 = Some 137
    \<and> getWalletsByChain owner 137 db2 = Inr ws137 \<and> w2 \<in> set ws137
    \<and> getWalletsByChain owner 1 db2 = Inr ws1 \<and> w2 \<notin> set ws1 \<and> w1 \<in> set ws1
    \<and> generateAndStoreWallets c rs' owner password (Some 137) db1 = (Inr data', db3)
    \<and> dw_ethereum_chainId data' = Some 137
    \<and> length (wallets db3) = length (wallets db1) + 4
    \<and> w3 = wallets db3 ! length (wallets db1)
    \<and> w_walletType w3 = ethereum \<and> w_userId w3 = owner
    \<and> w_address w3 = address (dw_ethereum data') \<and> w_chainId w3 = Some 137
    \<and> getWalletsByChain owner 137 db3 = Inr vs137 \<and> w3 \<in> set vs137 \<and> w1 \<notin> set vs137
    \<and> getWalletsByChain owner 1 db3 = Inr vs1 \<and> w3 \<notin> set vs1 \<and> w1 \<in> set vs1"
proof -
  obtain e where e: "encryptAccount c (eth_drawn rs) password = Inr e"
    "address e = account_address (eth_drawn rs)"
    using encryptAccount_Inr [OF c iv(1)] by blast
  obtain b where b: "encryptAccount c (btc_drawn rs) password = Inr b"
    using encryptAccount_Inr [OF c iv(2)] by blast
  obtain s where s: "encryptAccount c (sol_drawn rs) password = Inr s"
    using encryptAccount_Inr [OF c iv(3)] by blast
  obtain t where t: "encryptAccount c (tron_drawn rs) password = Inr t"
    using encryptAccount_Inr [OF c iv(4)] by blast
  obtain p where p: "encryptAccount c r password = Inr p"
    using encryptAccount_Inr [OF c iv(5)] by blast
  obtain e' where e': "encryptAccount c (eth_drawn rs') password = Inr e'"
    "address e' = account_address (eth_drawn rs')"
    using encryptAccount_Inr [OF c iv'(1)] by blast
  obtain b' where b': "encryptAccount c (btc_drawn rs') password = Inr b'"
    using encryptAccount_Inr [OF c iv'(2)] by blast
  obtain s' where s': "encryptAccount c (sol_drawn rs') password = Inr s'"
    using encryptAccount_Inr [OF c iv'(3)] by blast
  obtain t' where t': "encryptAccount c (tron_drawn rs') password = Inr t'"
    using encryptAccount_Inr [OF c iv'(4)] by blast
  show ?thesis
    using db tron tron'
    by (simp add: generateAndStoreWallets_def generateEncryptedWallet_def
        Bitcoin_generateEncryptedWallet_def Solana_generateEncryptedWallet_def
        Tron_generateEncryptedWallet_def generateEthereumWallet_def getWalletsByChain_def
        getWalletsByChainId_def createWallet_def ensureConnected_def chainId_or_default_def
        CHAIN_IDS_ETHEREUM_MAINNET_def e b s t p e' b' s' t' Let_def nth_append)
qed

theorem evmChainId_default_and_chain_filter_witness:
  "\<exists>data db1 w1 w2 db2 ws137 ws1 data' db3 w3 vs137 vs1.
      generateAndStoreWallets toy_crypto example_draws ''alice'' ''SecurePassword123!'' None
          (connect new_MockDatabase) = (Inr data, db1)
    \<and> dw_ethereum_chainId data = Some 1
    \<and> length (wallets db1) = length (wallets (connect new_MockDatabase)) + 4
    \<and> w1 = wallets db1 ! length (wallets (connect new_MockDatabase))
    \<and> w_walletType w1 = ethereum \<and> w_userId w1 = ''alice''
    \<and> w_address w1 = address (dw_ethereum data) \<and> w_chainId w1 = Some 1
    \<and> generateEthereumWallet toy_crypto (example_drawn ''0x99887766'' ''0xfedcba9876543210'')
          ''alice'' ''SecurePassword123!'' 137 db1 = Inr (w2, db2)
    \<and> w2 \<in> set (wallets db2) \<and> w_walletType w2 = ethereum \<and> w_chainId w2 = Some 137
    \<and> getWalletsByChain ''alice'' 137 db2 = Inr ws137 \<and> w2 \<in> set ws137
    \<and> getWalletsByChain ''alice'' 1 db2 = Inr ws1 \<and> w2 \<notin> set ws1 \<and> w1 \<in> set ws1
    \<and> generateAndStoreWallets toy_crypto example_draws_polygon ''alice'' ''SecurePassword123!''
          (Some 137) db1 = (Inr data', db3)
    \<and> dw_ethereum_chainId data' = Some 137
    \<and> length (wallets db3) = length (wallets db1) + 4
    \<and> w3 = wallets db3 ! length (wallets db1)
    \<and> w_walletType w3 = ethereum \<and> w_userId w3 = ''alice''
    \<and> w_address w3 = address (dw_ethereum data') \<and> w_chainId w3 = Some 137
    \<and> getWalletsByChain ''alice'' 137 db3 = Inr vs137 \<and> w3 \<in> set vs137 \<and> w1 \<notin> set vs137
    \<and> getWalletsByChain ''alice'' 1 db3 = Inr vs1 \<and> w3 \<notin> set vs1 \<and> w1 \<in> set vs1"
proof -
  have c: "connected (connect new_MockDatabase)"
    by (simp add: connect_def new_MockDatabase_def)
  have iv: "length (iv_bytes (eth_drawn example_draws)) = 16"
    "length (iv_bytes (btc_drawn example_draws)) = 16"
    "length (iv_bytes (sol_drawn example_draws)) = 16"
    "length (iv_bytes (tron_drawn example_draws)) = 16"
    "length (iv_bytes (example_drawn ''0x99887766'' ''0xfedcba9876543210'')) = 16"
    by (simp_all add: example_draws_def example_drawn_def)
  have t: "validateTronAddress (account_address (tron_drawn example_draws))"
    by (simp add: example_draws_def example_drawn_def validateTronAddress_def startsWith_def
        base58Chars_test_def base58Chars_def)
  have iv': "length (iv_bytes (eth_drawn example_draws_polygon)) = 16"
    "length (iv_bytes (btc_drawn example_draws_polygon)) = 16"
    "length (iv_bytes (sol_drawn example_draws_polygon)) = 16"
    "length (iv_bytes (tron_drawn example_draws_polygon)) = 16"
    by (simp_all add: example_draws_polygon_def example_drawn_def)
  have t': "validateTronAddress (account_address (tron_drawn example_draws_polygon))"
    by (simp add: example_draws_polygon_def example_drawn_def validateTronAddress_def
        startsWith_def base58Chars_test_def base58Chars_def)
  show ?thesis
    by (rule evmChainId_default_and_chain_filter [OF toy_crypto_ok c iv t iv' t'])
qed

section \<open>Case-insensitive lookups\<close>

text \<open>
  C10, as stated: for every stored record, a query whose address differs from the stored
  value only in ASCII letter case returns that record. It fails when an earlier record of the
  same owner has an address that differs from it only in case: \<open>find\<close> returns the first
  match. The store below holds two wallets of one owner with the Base58 addresses \<open>1AbC\<close> and
  \<open>1aBc\<close>; the query \<open>1abc\<close> differs from the second only in case and returns the first.
\<close>

theorem lookup_ignores_case_counterexample:
  "\<not> (\<forall>db i a. connected db \<and> i < length (wallets db)
          \<and> differs_only_in_case a (w_address (wallets db ! i))
        \<longrightarrow> getWallet (w_userId (wallets db ! i)) a db = Inr (Some (wallets db ! i)))"
proof
  let ?db = "example_db [example_wallet 1 ''alice'' ''1AbC'', example_wallet 2 ''alice'' ''1aBc''] []"
  assume "\<forall>db i a. connected db \<and> i < length (wallets db)
          \<and> differs_only_in_case a (w_address (wallets db ! i))
        \<longrightarrow> getWallet (w_userId (wallets db ! i)) a db = Inr (Some (wallets db ! i))"
  then have "connected ?db \<and> 1 < length (wallets ?db)
          \<and> differs_only_in_case ''1abc'' (w_address (wallets ?db ! 1))
        \<longrightarrow> getWallet (w_userId (wallets ?db ! 1)) ''1abc'' ?db = Inr (Some (wallets ?db ! 1))"
    by blast
  moreover have "differs_only_in_case ''1abc'' ''1aBc''"
    by code_simp
  moreover have "toLowerCase ''1AbC'' = toLowerCase ''1abc''"
    by code_simp
  ultimately show False
    by (simp add: example_db_def example_wallet_def getWallet_def ensureConnected_def)
qed

text \<open>
  C10, amended. In a connected in-memory store whose wallet addresses and transaction hashes
  are ASCII text, a query whose address differs from a stored wallet's address only in ASCII
  letter case returns that wallet, provided no earlier stored wallet of the same owner has an
  address that differs from it only in case; a query whose hash differs from a stored
  transaction's hash only in case returns that transaction, provided no earlier stored
  transaction has a hash that differs from it only in case. The owner filter is exact: a
  wallet returned for owner \<open>u\<close> and an ASCII address is stored with owner \<open>u\<close>. The chain-id
  query returns exactly the stored wallets with that owner and that chain id.

  A query that differs only in case from an ASCII value is ASCII itself
  (\<open>differs_only_in_case_ascii_text\<close>), so every comparison behind the first two parts is one
  of ASCII strings.
\<close>

theorem lookup_ignores_case_first_match:
  assumes "connected db"
    and "list_all (\<lambda>w. ascii_text (w_address w)) (wallets db)"
    and "list_all (\<lambda>t. ascii_text (t_hash t)) (transactions db)"
  shows "(\<forall>i a. i < length (wallets db)
            \<and> differs_only_in_case a (w_address (wallets db ! i))
            \<and> (\<forall>j<i. \<not> (w_userId (wallets db ! j) = w_userId (wallets db ! i)
                        \<and> differs_only_in_case (w_address (wallets db ! j))
                             (w_address (wallets db ! i))))
          \<longrightarrow> getWallet (w_userId (wallets db ! i)) a db = Inr (Some (wallets db ! i)))
       \<and> (\<forall>i h. i < length (transactions db)
            \<and> differs_only_in_case h (t_hash (transactions db ! i))
            \<and> (\<forall>j<i. \<not> differs_only_in_case (t_hash (transactions db ! j))
                             (t_hash (transactions db ! i)))
          \<longrightarrow> getTransactionsByHash h db = Inr (Some (transactions db ! i)))
       \<and> (\<forall>u a w. ascii_text a \<and> getWallet u a db = Inr (Some w)
            \<longrightarrow> w \<in> set (wallets db) \<and> w_userId w = u)
       \<and> (\<forall>u c. getWalletsByChainId u c db =
                   Inr (filter (\<lambda>w. w_userId w = u \<and> w_chainId w = Some c) (wallets db)))"
proof (intro conjI allI impI)
  fix i a
  assume "i < length (wallets db)
            \<and> differs_only_in_case a (w_address (wallets db ! i))
            \<and> (\<forall>j<i. \<not> (w_userId (wallets db ! j) = w_userId (wallets db ! i)
                        \<and> differs_only_in_case (w_address (wallets db ! j))
                             (w_address (wallets db ! i))))"
  with assms(1) show "getWallet (w_userId (wallets db ! i)) a db = Inr (Some (wallets db ! i))"
    by (intro getWallet_first_match) simp_all
next
  fix i h
  assume "i < length (transactions db)
            \<and> differs_only_in_case h (t_hash (transactions db ! i))
            \<and> (\<forall>j<i. \<not> differs_only_in_case (t_hash (transactions db ! j))
                             (t_hash (transactions db ! i)))"
  with assms(1) show "getTransactionsByHash h db = Inr (Some (transactions db ! i))"
    by (intro getTransactionsByHash_first_match) simp_all
next
  fix u a w assume "ascii_text a \<and> getWallet u a db = Inr (Some w)"
  then have "getWallet u a db = Inr (Some w)" by simp
  then show "w \<in> set (wallets db)" "w_userId w = u"
    using getWallet_owner_exact by blast+
next
  fix u c
  show "getWalletsByChainId u c db =
          Inr (filter (\<lambda>w. w_userId w = u \<and> w_chainId w = Some c) (wallets db))"
    using assms(1) by (simp add: getWalletsByChainId_def ensureConnected_def)
qed

theorem lookup_ignores_case_first_match_witness:
  "getWallet ''alice'' ''0XABCDEF12''
     (example_db [example_wallet 1 ''bob'' ''0xabcdef12'', example_wallet 2 ''alice'' ''0xAbCdEf12'']
        [example_transaction 1 swap pending ''mock-tx-17'', example_transaction 2 send completed ''0xFe'']) =
     Inr (Some (example_wallet 2 ''alice'' ''0xAbCdEf12''))
   \<and> getTransactionsByHash ''0XFE''
     (example_db [example_wallet 1 ''bob'' ''0xabcdef12'', example_wallet 2 ''alice'' ''0xAbCdEf12'']
        [example_transaction 1 swap pending ''mock-tx-17'', example_transaction 2 send completed ''0xFe'']) =
     Inr (Some (example_transaction 2 send completed ''0xFe''))"
proof -
  let ?ws = "[example_wallet 1 ''bob'' ''0xabcdef12'', example_wallet 2 ''alice'' ''0xAbCdEf12'']"
  let ?ts = "[example_transaction 1 swap pending ''mock-tx-17'',
              example_transaction 2 send completed ''0xFe'']"
  let ?db = "example_db ?ws ?ts"
  have c: "connected ?db" by (simp add: example_db_def)
  have aw: "list_all (\<lambda>w. ascii_text (w_address w)) (wallets ?db)" by code_simp
  have at: "list_all (\<lambda>t. ascii_text (t_hash t)) (transactions ?db)" by code_simp
  have sel: "wallets ?db ! 1 = example_wallet 2 ''alice'' ''0xAbCdEf12''"
    "wallets ?db ! 0 = example_wallet 1 ''bob'' ''0xabcdef12''"
    "transactions ?db ! 1 = example_transaction 2 send completed ''0xFe''"
    "transactions ?db ! 0 = example_transaction 1 swap pending ''mock-tx-17''"
    "wallets ?db ! Suc 0 = example_wallet 2 ''alice'' ''0xAbCdEf12''"
    "transactions ?db ! Suc 0 = example_transaction 2 send completed ''0xFe''"
    "length (wallets ?db) = 2" "length (transactions ?db) = 2"
    by (simp_all add: example_db_def)
  have f: "w_address (example_wallet i u a) = a" "w_userId (example_wallet i u a) = u"
    "t_hash (example_transaction i k st h) = h" for i u a k st h
    by (simp_all add: example_wallet_def example_transaction_def)
  have d1: "differs_only_in_case ''0XABCDEF12'' ''0xAbCdEf12''" by code_simp
  have d2: "differs_only_in_case ''0XFE'' ''0xFe''" by code_simp
  have d3: "\<not> differs_only_in_case ''mock-tx-17'' ''0xFe''" by code_simp
  have w: "1 < length (wallets ?db)
            \<and> differs_only_in_case ''0XABCDEF12'' (w_address (wallets ?db ! 1))
            \<and> (\<forall>j<1. \<not> (w_userId (wallets ?db ! j) = w_userId (wallets ?db ! 1)
                        \<and> differs_only_in_case (w_address (wallets ?db ! j))
                             (w_address (wallets ?db ! 1))))"
    by (simp add: sel f d1)
  have t: "1 < length (transactions ?db)
            \<and> differs_only_in_case ''0XFE'' (t_hash (transactions ?db ! 1))
            \<and> (\<forall>j<1. \<not> differs_only_in_case (t_hash (transactions ?db ! j))
                             (t_hash (transactions ?db ! 1)))"
    by (simp add: sel f d2 d3)
  note th = lookup_ignores_case_first_match [OF c aw at]
  have "getWallet (w_userId (wallets ?db ! 1)) ''0XABCDEF12'' ?db = Inr (Some (wallets ?db ! 1))"
    using th [THEN conjunct1, rule_format, OF w] .
  moreover
  have "getTransactionsByHash ''0XFE'' ?db = Inr (Some (transactions ?db ! 1))"
    using th [THEN conjunct2, THEN conjunct1, rule_format, OF t] .
  ultimately show ?thesis
    by (simp only: sel f)
qed

section \<open>Creating a swap for an unknown wallet\<close>

text \<open>
  C4, as stated: for a wallet id not in the store, \<open>createSwap\<close> fails with the not-found
  error itself, unchanged. It does not: the \<open>catch\<close> block of \<open>createSwap\<close> replaces every
  error by a new \<open>Error\<close> whose message is \<open>Failed to create swap: \<close> followed by the message
  of the caught one.
\<close>

theorem createSwap_unknown_wallet_counterexample:
  "\<not> (\<forall>api walletId fc tc amt toAddr refund fcid tcid db.
         connected db \<and> list_all (\<lambda>w. w_id w \<noteq> walletId) (wallets db)
         \<longrightarrow> createSwap api walletId fc tc amt toAddr refund fcid tcid db
               = Inl (walletNotFound walletId))"
proof
  assume "\<forall>api walletId fc tc amt toAddr refund fcid tcid db.
         connected db \<and> list_all (\<lambda>w. w_id w \<noteq> walletId) (wallets db)
         \<longrightarrow> createSwap api walletId fc tc amt toAddr refund fcid tcid db
               = Inl (walletNotFound walletId)"
  then have "connected (example_db [] []) \<and> list_all (\<lambda>w. w_id w \<noteq> 7) (wallets (example_db [] []))
         \<longrightarrow> createSwap (example_api example_lookup) 7 ''ETH'' ''BTC'' ''1.0'' ''1AbC'' ''0xAb''
                 None None (example_db [] [])
               = Inl (walletNotFound 7)"
    by blast
  then show False
    by (simp add: example_db_def createSwap_def createSwap_try_def getWalletById_def
        ensureConnected_def walletNotFound_def rethrow_def)
qed

text \<open>
  C4, amended. For every wallet id not present in the connected store, \<open>createSwap\<close> fails
  with an \<open>Error\<close> whose message is
  \<open>Failed to create swap: Wallet with ID <walletId> not found\<close>: the not-found error, caught
  and wrapped once.
\<close>

theorem createSwap_unknown_wallet:
  assumes "connected db" "list_all (\<lambda>w. w_id w \<noteq> walletId) (wallets db)"
  shows "createSwap api walletId fc tc amt toAddr refund fcid tcid db =
           Inl (Error (''Failed to create swap: Wallet with ID '' @ number_toString walletId
                        @ '' not found''))"
proof -
  have "find (\<lambda>w. w_id w = walletId) (wallets db) = None"
    using assms(2) by (simp add: find_None_iff list_all_iff)
  then show ?thesis using assms(1)
    by (simp add: createSwap_def createSwap_try_def getWalletById_def ensureConnected_def
        walletNotFound_def rethrow_def)
qed

theorem createSwap_unknown_wallet_witness:
  "createSwap (example_api example_lookup) 7 ''ETH'' ''BTC'' ''1.0'' ''1AbC'' ''0xAb'' None None
     (example_db [example_wallet 1 ''alice'' ''0xAb''] [])
   = Inl (Error ''Failed to create swap: Wallet with ID 7 not found'')"
proof -
  have "connected (example_db [example_wallet 1 ''alice'' ''0xAb''] [])"
    "list_all (\<lambda>w. w_id w \<noteq> 7) (wallets (example_db [example_wallet 1 ''alice'' ''0xAb''] []))"
    by (simp_all add: example_db_def example_wallet_def)
  from createSwap_unknown_wallet [OF this] show ?thesis
    by (simp add: number_toString_def string_of_nat.simps digit_char_def)
qed

section \<open>The reconciliation pass\<close>

text \<open>
  The three properties below are claimed of \<open>updatePendingSwaps\<close>. The loop of the pass does
  what they say when it is handed the pending swaps (\<open>loop_on_pending\<close>, \<open>loop_skip\<close>), but the
  pass does not reach its loop on any store (\<open>updatePendingSwaps_throws\<close>): the store classes
  lack the method that the pass calls first. Each theorem runs the pass at an input of the
  claim and shows what it returns.
\<close>

subsection \<open>Projection of the gateway status\<close>

text \<open>
  C5. For every pending swap record scanned by the reconciliation pass, the gateway's fine
  status is projected to the stored status as: waiting, confirming, exchanging and sending
  to pending; finished to completed; failed and refunded to failed; and no other value is
  ever written.

  On the store below, which holds pending swaps for which the gateway reports finished and
  failed, the pass throws: it returns no store, so the one it was called on stays, with
  these records still pending where the claim has them completed and failed.
\<close>

theorem updatePendingSwaps_projects_nothing:
  "updatePendingSwaps (example_api example_lookup) (example_db [] example_pending) =
     Inl (Error ''Failed to update pending swaps: this.db.getTransactionsByStatus is not a function'')
   \<and> getTransactionStatus (example_api example_lookup) (t_hash (example_pending ! 0))
       = Inr (example_status s_finished)
   \<and> newStatus s_finished = completed
   \<and> t_status (transactions (example_db [] example_pending) ! 0) = pending
   \<and> t_transactionType (transactions (example_db [] example_pending) ! 0) = swap"
  by (simp add: updatePendingSwaps_def getTransactionsByStatus_def rethrow_def example_db_def
      example_pending_def example_transaction_def example_api_def example_lookup_def
      newStatus_def)

subsection \<open>Isolation of lookup failures\<close>

text \<open>
  C6. For every collection of pending swap records, if the gateway lookup fails for one
  record, the reconciliation pass continues with the remaining records, does not raise for
  that failure, and returns the count of records whose status was updated.

  For every gateway and every store the pass raises and returns no count, whether a lookup
  fails or not.
\<close>

theorem updatePendingSwaps_raises:
  "updatePendingSwaps api db =
     Inl (Error ''Failed to update pending swaps: this.db.getTransactionsByStatus is not a function'')
   \<and> updatePendingSwaps api db \<noteq> Inr (n, db')"
  by (simp add: updatePendingSwaps_def getTransactionsByStatus_def rethrow_def)

subsection \<open>A swap, reconciled once\<close>

text \<open>
  C2. Starting from a store holding one pending swap record created by \<open>createSwap\<close>, when
  the gateway reports the fine status finished for that record's hash, one reconciliation
  pass sets the record's status to completed and counts one update, and a second pass writes
  nothing.

  A store that holds the wallet is what a \<open>SwapService\<close> has when the relational store is
  configured, which the services share: there \<open>createSwap\<close> records a pending swap, and the
  pass that follows, with the gateway reporting finished for the record's hash, throws: no
  update is counted and the record is not completed. With the in-memory store configured
  each service has a store of its own, the one of a \<open>SwapService\<close> holds no wallet, and
  \<open>createSwap\<close> already throws; so does the pass.
\<close>

theorem createSwap_then_reconcile_throws:
  "createSwap (example_api example_lookup) 1 ''ETH'' ''BTC'' ''1.0'' ''1AbC'' ''0xAb'' (Some 1) None
      (example_db [example_wallet 1 ''alice'' ''0xAb''] [example_transaction 1 send completed ''0xh1''])
    = Inr (example_swap pending,
           example_db [example_wallet 1 ''alice'' ''0xAb'']
             [example_transaction 1 send completed ''0xh1'', example_swap pending])
   \<and> getTransactionStatus (example_api (\<lambda>h. Inr (example_status s_finished)))
        (t_hash (example_swap pending)) = Inr (example_status s_finished)
   \<and> updatePendingSwaps (example_api (\<lambda>h. Inr (example_status s_finished)))
        (example_db [example_wallet 1 ''alice'' ''0xAb'']
             [example_transaction 1 send completed ''0xh1'', example_swap pending])
    = Inl (Error ''Failed to update pending swaps: this.db.getTransactionsByStatus is not a function'')
   \<and> createSwap (example_api example_lookup) 1 ''ETH'' ''BTC'' ''1.0'' ''1AbC'' ''0xAb'' (Some 1) None
        (connect new_MockDatabase)
    = Inl (Error ''Failed to create swap: Wallet with ID 1 not found'')
   \<and> updatePendingSwaps (example_api (\<lambda>h. Inr (example_status s_finished)))
        (connect new_MockDatabase)
    = Inl (Error ''Failed to update pending swaps: this.db.getTransactionsByStatus is not a function'')"
  by (simp add: updatePendingSwaps_def getTransactionsByStatus_def rethrow_def
      createSwap_def createSwap_try_def getWalletById_def recordTransaction_def
      ensureConnected_def example_db_def example_api_def example_wallet_def example_swap_def
      connect_def new_MockDatabase_def walletNotFound_def number_toString_def
      string_of_nat.simps digit_char_def Let_def)

section \<open>Round trip of the secret cipher\<close>

text \<open>
  C1. For every plaintext secret string and every password, decrypting the result of
  encrypting the plaintext under the password, with the same password, returns exactly the
  original plaintext, for any salt and initialisation vector drawn during encryption.

  \<open>generateEncryptedWallet\<close> returns, for primitives that satisfy \<^const>\<open>crypto_ok\<close>, any salt
  and any 16-byte initialisation vector, and \<open>decryptWallet\<close> on its result with the same
  password returns the private key text that was encrypted.
\<close>

theorem decryptWallet_generateEncryptedWallet:
  assumes "crypto_ok c" "length (iv_bytes r) = 16"
  shows "\<exists>w. generateEncryptedWallet c r password = Inr w
           \<and> salt w = toString_hex (salt_bytes r) \<and> iv w = toString_hex (iv_bytes r)
           \<and> decryptWallet c w password = Inr (account_privateKey r)"
proof -
  from encryptAccount_cipher [OF assms, of password]
  obtain w where w: "encryptAccount c r password = Inr w"
    "salt w = toString_hex (salt_bytes r)" "iv w = toString_hex (iv_bytes r)"
    by force
  from decrypt_same_key [OF assms w(1) refl]
  have "decryptPrivateKey c w password = Inr (account_privateKey r)" .
  with w show ?thesis
    by (simp add: generateEncryptedWallet_def decryptWallet_def)
qed

theorem decryptWallet_generateEncryptedWallet_witness:
  "\<exists>w. generateEncryptedWallet toy_crypto (example_drawn ''0xAbCdEf12'' ''0x0123456789abcdef'')
          ''MySecurePassword123!'' = Inr w
       \<and> salt w = toString_hex (salt_bytes (example_drawn ''0xAbCdEf12'' ''0x0123456789abcdef''))
       \<and> iv w = toString_hex (iv_bytes (example_drawn ''0xAbCdEf12'' ''0x0123456789abcdef''))
       \<and> decryptWallet toy_crypto w ''MySecurePassword123!''
           = Inr (account_privateKey (example_drawn ''0xAbCdEf12'' ''0x0123456789abcdef''))"
proof -
  have "length (iv_bytes (example_drawn ''0xAbCdEf12'' ''0x0123456789abcdef'')) = 16"
    by (simp add: example_drawn_def)
  with toy_crypto_ok show ?thesis
    by (rule decryptWallet_generateEncryptedWallet)
qed

section \<open>Decrypting with another password\<close>

text \<open>
  C9, as stated: for every plaintext and every two distinct passwords, decrypting under the
  second what was encrypted under the first fails. It does not. HMAC fills a key shorter
  than its block with zero bytes, so a password and the same password followed by a NUL
  character derive the same key, whatever the hash and the salt; decryption with the second
  then returns the original plaintext. (Here with the stand-in primitives; the lemma
  \<open>pbkdf2Sync_trailing_NUL\<close> holds for all.)
\<close>

theorem decryptWallet_wrong_password_counterexample:
  "\<not> (\<forall>c r p1 p2 w. crypto_ok c \<and> length (iv_bytes r) = 16 \<and> p1 \<noteq> p2
          \<and> generateEncryptedWallet c r p1 = Inr w
        \<longrightarrow> (\<exists>e. decryptWallet c w p2 = Inl e))"
proof
  let ?r = "example_account"
  let ?p1 = "''MySecurePassword123!''"
  let ?p2 = "''MySecurePassword123!'' @ [CHR 0x00]"
  assume a: "\<forall>c r p1 p2 w. crypto_ok c \<and> length (iv_bytes r) = 16 \<and> p1 \<noteq> p2
          \<and> generateEncryptedWallet c r p1 = Inr w
        \<longrightarrow> (\<exists>e. decryptWallet c w p2 = Inl e)"
  have iv: "length (iv_bytes ?r) = 16" by (simp add: example_account_def)
  from encryptAccount_cipher [OF toy_crypto_ok iv, of ?p1]
  obtain w where w: "encryptAccount toy_crypto ?r ?p1 = Inr w" by blast
  have ne: "?p1 \<noteq> ?p2" by simp
  from a [rule_format, of toy_crypto ?r ?p1 ?p2 w] toy_crypto_ok iv ne w
  obtain e where e: "decryptWallet toy_crypto w ?p2 = Inl e"
    by (auto simp: generateEncryptedWallet_def)
  have "pbkdf2Sync toy_crypto ?p2 (salt w) 100000 32 = pbkdf2Sync toy_crypto ?p1 (salt w) 100000 32"
    by (rule pbkdf2Sync_trailing_NUL) simp
  from decrypt_same_key [OF toy_crypto_ok iv w this]
  have "decryptWallet toy_crypto w ?p2 = Inr (account_privateKey ?r)"
    by (simp add: decryptWallet_def)
  with e show False by simp
qed

text \<open>
  C9, amended. For a wallet encrypted under password \<open>p1\<close> and any password \<open>p2\<close>: if the
  two passwords derive the same key from the wallet's salt, decryption under \<open>p2\<close> returns
  the original plaintext, and they do when \<open>p2\<close> is \<open>p1\<close>, shorter than 64 bytes, followed
  by a NUL character. If the decryption of the stored ciphertext under the key of \<open>p2\<close> does
  not end in valid PKCS#7 padding, decryption under \<open>p2\<close> fails with the cipher's generic
  error \<open>bad decrypt\<close>; there is no distinct error kind.

  Nothing is said of a key other than that of \<open>p1\<close> under which the decryption happens to
  end in valid padding: the text that comes out is then handed to the wallet constructor of
  the \<open>ethers\<close> library.
\<close>

theorem decryptWallet_other_password:
  assumes "crypto_ok c" "length (iv_bytes r) = 16" "generateEncryptedWallet c r p1 = Inr w"
  shows "(pbkdf2Sync c p2 (salt w) 100000 32 = pbkdf2Sync c p1 (salt w) 100000 32
            \<longrightarrow> decryptWallet c w p2 = Inr (account_privateKey r))
       \<and> (length p1 < 64 \<longrightarrow> decryptWallet c w (p1 @ [CHR 0x00]) = Inr (account_privateKey r))
       \<and> (pkcs7_unpad
             (concat (cbc_decrypt (aes256_decrypt c (pbkdf2Sync c p2 (salt w) 100000 32))
                        (Buffer_from_hex (iv w))
                        (chunks (Buffer_from_hex (encryptedPrivateKey w))))) = None
            \<longrightarrow> decryptWallet c w p2 = Inl (Error ''bad decrypt''))"
proof (intro conjI impI)
  from assms(3) have w: "encryptAccount c r p1 = Inr w"
    by (simp add: generateEncryptedWallet_def)
  {
    assume "pbkdf2Sync c p2 (salt w) 100000 32 = pbkdf2Sync c p1 (salt w) 100000 32"
    from decrypt_same_key [OF assms(1,2) w this]
    show "decryptWallet c w p2 = Inr (account_privateKey r)"
      by (simp add: decryptWallet_def)
  }
  {
    assume "length p1 < 64"
    then have "pbkdf2Sync c (p1 @ [CHR 0x00]) (salt w) 100000 32 = pbkdf2Sync c p1 (salt w) 100000 32"
      by (rule pbkdf2Sync_trailing_NUL)
    from decrypt_same_key [OF assms(1,2) w this]
    show "decryptWallet c w (p1 @ [CHR 0x00]) = Inr (account_privateKey r)"
      by (simp add: decryptWallet_def)
  }
  {
    assume "pkcs7_unpad
             (concat (cbc_decrypt (aes256_decrypt c (pbkdf2Sync c p2 (salt w) 100000 32))
                        (Buffer_from_hex (iv w))
                        (chunks (Buffer_from_hex (encryptedPrivateKey w))))) = None"
    from decrypt_bad_padding [OF assms(1,2) w this]
    show "decryptWallet c w p2 = Inl (Error ''bad decrypt'')"
      by (simp add: decryptWallet_def)
  }
qed

theorem decryptWallet_other_password_witness:
  "\<exists>w. generateEncryptedWallet toy_crypto example_account ''MySecurePassword123!'' = Inr w
       \<and> decryptWallet toy_crypto w (''MySecurePassword123!'' @ [CHR 0x00])
           = Inr (account_privateKey example_account)
       \<and> pbkdf2Sync toy_crypto ''WrongPassword'' (salt w) 100000 32
           \<noteq> pbkdf2Sync toy_crypto ''MySecurePassword123!'' (salt w) 100000 32
       \<and> decryptWallet toy_crypto w ''WrongPassword'' = Inl (Error ''bad decrypt'')"
proof -
  let ?r = "example_account"
  let ?s = "toString_hex (salt_bytes ?r)"
  have iv: "length (iv_bytes ?r) = 16" by (simp add: example_account_def)
  have l: "length ''MySecurePassword123!'' < 64" by simp
  have n: "length (utf8_bytes (account_privateKey ?r)) = 66"
    by (simp add: example_account_def utf8_bytes_def)
  from encryptAccount_cipher [OF toy_crypto_ok iv, of "''MySecurePassword123!''"]
  obtain ct where ct: "cipher_aes_256_cbc toy_crypto (pbkdf2Sync toy_crypto ''MySecurePassword123!'' ?s 100000 32)
                 (iv_bytes ?r) (utf8_bytes (account_privateKey ?r)) = Inr ct"
    and e: "encryptAccount toy_crypto ?r ''MySecurePassword123!'' =
              Inr \<lparr>address = account_address ?r, encryptedPrivateKey = toString_hex ct,
                   salt = ?s, iv = toString_hex (iv_bytes ?r)\<rparr>"
    by blast
  let ?w = "\<lparr>address = account_address ?r, encryptedPrivateKey = toString_hex ct,
              salt = ?s, iv = toString_hex (iv_bytes ?r)\<rparr>"
  have w: "generateEncryptedWallet toy_crypto ?r ''MySecurePassword123!'' = Inr ?w"
    using e by (simp add: generateEncryptedWallet_def)
  from ct have c: "ct = concat (cbc_encrypt (aes256_encrypt toy_crypto (replicate 32 96)) (iv_bytes ?r)
                          (chunks (pkcs7_pad (utf8_bytes (account_privateKey ?r)))))"
    by (simp add: example_account_keys cipher_aes_256_cbc_def iv)
  have "pkcs7_unpad (concat (cbc_decrypt (aes256_decrypt toy_crypto (replicate 32 32)) (iv_bytes ?r)
           (chunks ct))) = None"
    unfolding c by (rule toy_other_key [OF iv]) (simp add: n)
  then have p: "pkcs7_unpad
             (concat (cbc_decrypt (aes256_decrypt toy_crypto (pbkdf2Sync toy_crypto ''WrongPassword'' (salt ?w) 100000 32))
                        (Buffer_from_hex (iv ?w))
                        (chunks (Buffer_from_hex (encryptedPrivateKey ?w))))) = None"
    by (simp add: example_account_keys Buffer_from_hex_toString_hex)
  have d: "pbkdf2Sync toy_crypto ''WrongPassword'' (salt ?w) 100000 32
           \<noteq> pbkdf2Sync toy_crypto ''MySecurePassword123!'' (salt ?w) 100000 32"
    by (simp add: example_account_keys)
  note th = decryptWallet_other_password [OF toy_crypto_ok iv w, of "''WrongPassword''"]
  from th [THEN conjunct2, THEN conjunct1, rule_format, OF l]
    th [THEN conjunct2, THEN conjunct2, rule_format, OF p] w d
  show ?thesis by blast
qed

end
